theory Spec2Isabelle
  imports Complex_Main "HOL-Library.Sublist"
begin

section \<open>JavaScript values used by the sync code\<close>

text \<open>
  Optional strings (\<open>string | null | undefined\<close>) are \<open>string option\<close>.  JavaScript
  truthiness of such a value: \<open>null\<close>, \<open>undefined\<close> and the empty string are falsy.
\<close>

fun truthy :: "string option \<Rightarrow> bool" where
  "truthy None = False"
| "truthy (Some s) = (s \<noteq> [])"

text \<open>\<open>value || ''\<close> inside a template string.\<close>

fun or_empty :: "string option \<Rightarrow> string" where
  "or_empty None = []"
| "or_empty (Some s) = s"

text \<open>
  \<open>normalizeCalendarUrl\<close> of \<open>services/api.ts\<close> and \<open>services/caldav.ts\<close>:
  \<open>url.replace(/\/+$/, '')\<close> removes the run of slashes that ends the string.
\<close>

definition normalizeCalendarUrl :: "string \<Rightarrow> string" where
  "normalizeCalendarUrl url = rev (dropWhile (\<lambda>c. c = CHR ''/'') (rev url))"

section \<open>The outside world: event store, relay, clock, local storage\<close>

text \<open>
  The sync engine reaches the event store through the Supabase client and the CalDAV server
  through \<open>invokeCalDavProxy\<close>, so every query is an external call: the code sends a
  request and branches on what comes back.  The requests are the constructors of
  \<open>io_call\<close>; every request made is appended to the log \<open>calls\<close> of the world, and
  the answer comes from the environment: one oracle per kind of request, which sees the
  number of external calls made before and the request itself.
\<close>

record CalDAVConfig =
  serverUrl :: string
  username :: string
  password :: string

text \<open>An event as the proxy returns it (\<open>Omit<Event, 'id'>\<close> with the \<open>uid\<close> of the proxy).\<close>

record remote_event =
  ev_title :: string
  ev_date :: string
  ev_memo :: "string option"
  ev_startTime :: "string option"
  ev_endTime :: "string option"
  ev_color :: string
  ev_uid :: "string option"

text \<open>The columns \<open>id, caldav_uid, title, date, start_time, end_time\<close> of a stored event.\<close>

record existing_row =
  ex_id :: string
  ex_caldav_uid :: "string option"
  ex_title :: string
  ex_date :: string
  ex_start_time :: "string option"
  ex_end_time :: "string option"

text \<open>The columns that \<open>fetchEventByUID\<close> selects.\<close>

record stored_event =
  st_id :: string
  st_title :: string
  st_date :: string
  st_memo :: "string option"
  st_start_time :: "string option"
  st_end_time :: "string option"
  st_color :: string
  st_calendar_url :: "string option"
  st_source :: "string option"

text \<open>
  The \<open>payload\<close> object of \<open>updateEventByUID\<close>: a column is \<open>None\<close> when the payload
  has no such key, and a nullable column that is set carries its new value, \<open>null\<close>
  (\<open>Some None\<close>) included.
\<close>

record update_payload =
  pl_title :: "string option"
  pl_date :: "string option"
  pl_memo :: "string option option"
  pl_start_time :: "string option option"
  pl_end_time :: "string option option"

text \<open>The \<open>payload\<close> object of \<open>createEvent\<close>.\<close>

record insert_payload =
  ins_title :: string
  ins_date :: string
  ins_memo :: "string option"
  ins_color :: string
  ins_start_time :: "string option"
  ins_end_time :: "string option"
  ins_source :: string
  ins_caldav_uid :: "string option"
  ins_calendar_url :: "string option"

text \<open>
  A JavaScript \<open>Date\<close> read through its local-time getters: year, month (0 to 11), day of
  the month, and the milliseconds since local midnight.
\<close>

record js_date =
  d_year :: int
  d_month :: nat
  d_date :: nat
  d_time :: nat

datatype io_call =
    DbSelectCaldavEvents "string list"
      \<comment> \<open>\<open>select('id, caldav_uid, ...').in('calendar_url', urls).eq('source', 'caldav')\<close>\<close>
  | DbDeleteIds "string list"
      \<comment> \<open>\<open>delete().in('id', batch)\<close>\<close>
  | DbExistsByUID string string
      \<comment> \<open>\<open>select('id').eq('caldav_uid', uid).eq('calendar_url', url).limit(1).maybeSingle()\<close>\<close>
  | DbFetchByUID string string
      \<comment> \<open>\<open>select('id, title, ...').eq('caldav_uid', uid).eq('calendar_url', url).maybeSingle()\<close>\<close>
  | DbUpdateByUID string string update_payload
      \<comment> \<open>\<open>update(payload).eq('caldav_uid', uid).eq('calendar_url', url)\<close>\<close>
  | DbFindByDetails string string "string option" "string option" string
      \<comment> \<open>title, date, start\_time, end\_time, calendar\_url; source caldav, caldav\_uid null\<close>
  | DbUpdateUID string string string
      \<comment> \<open>\<open>update({caldav_uid, calendar_url, source: 'caldav'}).eq('id', eventId)\<close>\<close>
  | DbInsert insert_payload
      \<comment> \<open>\<open>insert([payload]).select().single()\<close>\<close>
  | DbEventExists string string string "string option" "string option" "string option"
      \<comment> \<open>title, date, source, start\_time, end\_time (\<open>None\<close>: \<open>is null\<close>), calendar\_url filter\<close>
  | PxSyncCollection CalDAVConfig string string
      \<comment> \<open>\<open>invokeCalDavProxy({action: 'syncCollection', calendarUrl, syncToken})\<close>\<close>
  | PxFetchEvents CalDAVConfig string js_date js_date
      \<comment> \<open>\<open>invokeCalDavProxy({action: 'fetchEvents', calendarUrl, startDate, endDate})\<close>;
          the source sends the \<open>toISOString\<close> date part of the two dates\<close>
  | PxGetSyncToken CalDAVConfig string
      \<comment> \<open>\<open>invokeCalDavProxy({action: 'getSyncToken', calendarUrl})\<close>\<close>
  | ClockNow
      \<comment> \<open>\<open>new Date()\<close>\<close>

text \<open>
  What comes back.  A query that ends in \<open>maybeSingle()\<close> or selects rows resolves to
  \<open>{ data, error }\<close>, each of which may be null; an \<open>update\<close> or a \<open>delete\<close> to
  \<open>{ error }\<close>; \<open>single()\<close> to an error or to the one row.  \<open>invokeCalDavProxy\<close>
  throws (\<open>Inl\<close>) or returns the parsed JSON body.
\<close>

record 'a db_response =
  resp_data :: "'a option"
  resp_error :: "string option"   \<comment> \<open>\<open>error.code\<close> when an error came back\<close>

record sync_collection_data =
  sc_events :: "remote_event list option"
  sc_syncToken :: "string option"
  sc_hasDeletions :: "bool option"

record env =
  has_window :: bool    \<comment> \<open>\<open>typeof window !== 'undefined'\<close>\<close>
  clock :: "nat \<Rightarrow> js_date"
  ls_setItem_throws :: "nat \<Rightarrow> bool"
  px_syncCollection :: "nat \<Rightarrow> io_call \<Rightarrow> string + sync_collection_data option"
  px_fetchEvents :: "nat \<Rightarrow> io_call \<Rightarrow> string + remote_event list option"
      \<comment> \<open>\<open>None\<close>: the body is not an array\<close>
  px_getSyncToken :: "nat \<Rightarrow> io_call \<Rightarrow> string + string option"
      \<comment> \<open>the value of \<open>data?.syncToken\<close>\<close>
  db_select_caldav_events :: "nat \<Rightarrow> io_call \<Rightarrow> existing_row list db_response"
  db_delete_ids :: "nat \<Rightarrow> io_call \<Rightarrow> string option"
  db_exists_by_uid :: "nat \<Rightarrow> io_call \<Rightarrow> string db_response"
  db_fetch_by_uid :: "nat \<Rightarrow> io_call \<Rightarrow> stored_event db_response"
  db_update_by_uid :: "nat \<Rightarrow> io_call \<Rightarrow> string option"
  db_find_by_details :: "nat \<Rightarrow> io_call \<Rightarrow> string db_response"
  db_update_uid :: "nat \<Rightarrow> io_call \<Rightarrow> string option"
  db_insert :: "nat \<Rightarrow> io_call \<Rightarrow> string + string"
      \<comment> \<open>the error code, or the inserted row (its id)\<close>
  db_event_exists :: "nat \<Rightarrow> io_call \<Rightarrow> string db_response"

text \<open>
  The mutable state: the log of external calls, the module-level flag \<open>syncInFlight\<close> of
  \<open>services/caldav.ts\<close>, and \<open>window.localStorage\<close>, where an item is the token object
  that \<open>JSON.parse\<close> gives, or a text that makes \<open>JSON.parse\<close> throw.
\<close>

datatype ls_item = LsTokens "string \<rightharpoonup> string" | LsUnparsable

record world =
  calls :: "io_call list"
  syncInFlight :: bool
  localStorage :: "string \<rightharpoonup> ls_item"

definition emit :: "io_call \<Rightarrow> world \<Rightarrow> world" where
  "emit c w = w\<lparr>calls := calls w @ [c]\<rparr>"

text \<open>One external call: ask the oracle, log the request.\<close>

definition ask :: "(nat \<Rightarrow> io_call \<Rightarrow> 'r) \<Rightarrow> io_call \<Rightarrow> world \<Rightarrow> 'r \<times> world" where
  "ask oracle c w = (oracle (length (calls w)) c, emit c w)"

text \<open>The calls made between two worlds, with their positions in the log.\<close>

definition new_calls :: "world \<Rightarrow> world \<Rightarrow> io_call list" where
  "new_calls w w' = drop (length (calls w)) (calls w')"


section \<open>deleteRemovedEvents (services/api.ts)\<close>

text \<open>The key \<open>`${title}|${date}|${startTime || ''}|${endTime || ''}`\<close>.\<close>

definition event_key :: "string \<Rightarrow> string \<Rightarrow> string option \<Rightarrow> string option \<Rightarrow> string" where
  "event_key t d s e = t @ ''|'' @ d @ ''|'' @ or_empty s @ ''|'' @ or_empty e"

definition currentEventKeys :: "remote_event list \<Rightarrow> string set" where
  "currentEventKeys currentEvents =
     set (map (\<lambda>ev. event_key (ev_title ev) (ev_date ev) (ev_startTime ev) (ev_endTime ev))
            currentEvents)"

text \<open>The body of the loop over \<open>existingEvents\<close>: the value of \<open>shouldDelete\<close>.\<close>

definition shouldDelete :: "string set \<Rightarrow> string set \<Rightarrow> existing_row \<Rightarrow> bool" where
  "shouldDelete currentUids keys r =
     (if truthy (ex_caldav_uid r)
      then or_empty (ex_caldav_uid r) \<notin> currentUids
      else event_key (ex_title r) (ex_date r) (ex_start_time r) (ex_end_time r) \<notin> keys)"

definition toDelete :: "string set \<Rightarrow> remote_event list \<Rightarrow> existing_row list \<Rightarrow> string list" where
  "toDelete currentUids currentEvents existingEvents =
     map ex_id (filter (shouldDelete currentUids (currentEventKeys currentEvents)) existingEvents)"

text \<open>
  The guard \<open>existingEvents.length >= 10 && toDelete.length > existingEvents.length * 0.9\<close>.
  The product is a double in the source.  For a length below \<open>2^32\<close> it lies within half a
  unit in the last place of the exact \<open>9n/10\<close>, so it is that integer when \<open>9n/10\<close> is
  one and lies strictly between the two neighbouring integers otherwise: the comparison
  with the integer \<open>toDelete.length\<close> is the comparison with the exact product,
  which is what the model computes.
\<close>

definition mass_deletion :: "nat \<Rightarrow> nat \<Rightarrow> bool" where
  "mass_deletion n_existing n_delete =
     (n_existing \<ge> 10 \<and> real n_delete > real n_existing * 0.9)"

text \<open>
  The batch loop \<open>for (let i = 0; i < toDelete.length; i += batchSize)\<close> with
  \<open>batchSize = 50\<close>: a failed batch is skipped, the others are still sent.
\<close>

function delete_batches :: "env \<Rightarrow> string list \<Rightarrow> nat \<Rightarrow> nat \<Rightarrow> world \<Rightarrow> nat \<times> world" where
  "delete_batches E ids i deletedCount w =
     (if i < length ids then
        (let batch = take 50 (drop i ids);
             (deleteError, w') = ask (db_delete_ids E) (DbDeleteIds batch) w
         in if deleteError \<noteq> None
            then delete_batches E ids (i + 50) deletedCount w'
            else delete_batches E ids (i + 50) (deletedCount + length batch) w')
      else (deletedCount, w))"
  by pat_completeness auto
termination
  by (relation "measure (\<lambda>(E, ids, i, c, w). length ids - i)") auto

declare delete_batches.simps [simp del]

text \<open>
  The argument of \<open>.in('calendar_url', ...)\<close>: the normalized URL and, unless it is empty,
  the same with a slash at the end (\<open>altCalendarUrl\<close>).
\<close>

definition calendar_url_variants :: "string \<Rightarrow> string list" where
  "calendar_url_variants calendarUrl =
     (let normalizedCalendarUrl = normalizeCalendarUrl calendarUrl
      in if normalizedCalendarUrl \<noteq> []
         then [normalizedCalendarUrl, normalizedCalendarUrl @ ''/'']
         else [normalizedCalendarUrl])"

definition deleteRemovedEvents ::
  "env \<Rightarrow> string \<Rightarrow> string set \<Rightarrow> remote_event list \<Rightarrow> world \<Rightarrow> nat \<times> world" where
  "deleteRemovedEvents E calendarUrl currentUids currentEvents w =
     (let urls = calendar_url_variants calendarUrl
      in if currentEvents = [] \<and> currentUids = {} then (0, w)
         else
           (let (r, w1) = ask (db_select_caldav_events E) (DbSelectCaldavEvents urls) w
            in case (resp_error r, resp_data r) of
                 (Some err, _) \<Rightarrow> (0, w1)
               | (None, None) \<Rightarrow> (0, w1)
               | (None, Some existingEvents) \<Rightarrow>
                   if length existingEvents > 100 \<and> currentEvents = [] \<and> currentUids = {}
                   then (0, w1)
                   else
                     (let ids = toDelete currentUids currentEvents existingEvents
                      in if mass_deletion (length existingEvents) (length ids) then (0, w1)
                         else if length ids > 0 then delete_batches E ids 0 0 w1
                         else (0, w1))))"

section \<open>The other store operations of services/api.ts\<close>

text \<open>
  \<open>if (error && error.code !== 'PGRST116') return false; return data !== null\<close>,
  the common end of \<open>eventExistsByUID\<close> and \<open>eventExists\<close>.
\<close>

definition hard_error :: "'a db_response \<Rightarrow> bool" where
  "hard_error r = (case resp_error r of None \<Rightarrow> False | Some code \<Rightarrow> code \<noteq> ''PGRST116'')"

definition eventExistsByUID :: "env \<Rightarrow> string \<Rightarrow> string \<Rightarrow> world \<Rightarrow> bool \<times> world" where
  "eventExistsByUID E uid calendarUrl w =
     (let (r, w') = ask (db_exists_by_uid E) (DbExistsByUID uid (normalizeCalendarUrl calendarUrl)) w
      in if hard_error r then (False, w') else (resp_data r \<noteq> None, w'))"

definition fetchEventByUID ::
  "env \<Rightarrow> string \<Rightarrow> string \<Rightarrow> world \<Rightarrow> stored_event option \<times> world" where
  "fetchEventByUID E uid calendarUrl w =
     (let (r, w') = ask (db_fetch_by_uid E) (DbFetchByUID uid (normalizeCalendarUrl calendarUrl)) w
      in if hard_error r then (None, w') else (resp_data r, w'))"

text \<open>
  The \<open>updates\<close> object that the sync loop builds: six optional keys.  The parameter of
  \<open>updateEventByUID\<close> is typed with the first five only, and the function copies those
  five into the payload.
\<close>

record event_updates =
  up_title :: "string option"
  up_date :: "string option"
  up_memo :: "string option option"
  up_startTime :: "string option option"
  up_endTime :: "string option option"
  up_color :: "string option"

definition no_updates :: event_updates where
  "no_updates = \<lparr>up_title = None, up_date = None, up_memo = None, up_startTime = None,
                   up_endTime = None, up_color = None\<rparr>"

definition updateEventByUID ::
  "env \<Rightarrow> string \<Rightarrow> string \<Rightarrow> event_updates \<Rightarrow> world \<Rightarrow> bool \<times> world" where
  "updateEventByUID E uid calendarUrl updates w =
     (let payload = \<lparr>pl_title = up_title updates, pl_date = up_date updates,
                      pl_memo = up_memo updates, pl_start_time = up_startTime updates,
                      pl_end_time = up_endTime updates\<rparr>;
          (error, w') = ask (db_update_by_uid E)
                          (DbUpdateByUID uid (normalizeCalendarUrl calendarUrl) payload) w
      in (error = None, w'))"

text \<open>\<open>value || null\<close>: a falsy value becomes null.\<close>

definition or_null :: "string option \<Rightarrow> string option" where
  "or_null v = (if truthy v then v else None)"

definition findEventByDetails ::
  "env \<Rightarrow> remote_event \<Rightarrow> string \<Rightarrow> world \<Rightarrow> string option \<times> world" where
  "findEventByDetails E event calendarUrl w =
     (let (r, w') = ask (db_find_by_details E)
                      (DbFindByDetails (ev_title event) (ev_date event)
                         (or_null (ev_startTime event)) (or_null (ev_endTime event))
                         (normalizeCalendarUrl calendarUrl)) w
      in if hard_error r then (None, w') else (or_null (resp_data r), w'))"

definition updateEventUID :: "env \<Rightarrow> string \<Rightarrow> string \<Rightarrow> string \<Rightarrow> world \<Rightarrow> bool \<times> world" where
  "updateEventUID E eventId uid calendarUrl w =
     (let (error, w') = ask (db_update_uid E)
                          (DbUpdateUID eventId uid (normalizeCalendarUrl calendarUrl)) w
      in (error = None, w'))"

text \<open>
  \<open>createEvent\<close> with the arguments the sync loop gives it: the event, the uid
  (\<open>uid || caldavUid\<close>), the calendar URL and the source.  The result is the created row,
  or null when the insert failed.
\<close>

definition createEvent ::
  "env \<Rightarrow> remote_event \<Rightarrow> string option \<Rightarrow> string \<Rightarrow> string \<Rightarrow> world \<Rightarrow> string option \<times> world" where
  "createEvent E event eventUid calendarUrl source w =
     (let normalizedCalendarUrl = normalizeCalendarUrl calendarUrl;
          payload = \<lparr>ins_title = ev_title event, ins_date = ev_date event,
                      ins_memo = ev_memo event, ins_color = ev_color event,
                      ins_start_time = ev_startTime event, ins_end_time = ev_endTime event,
                      ins_source = (if source \<noteq> [] then source else ''manual''),
                      ins_caldav_uid = (if truthy eventUid then eventUid else None),
                      ins_calendar_url =
                        (if normalizedCalendarUrl \<noteq> [] then Some normalizedCalendarUrl else None)\<rparr>;
          (r, w') = ask (db_insert E) (DbInsert payload) w
      in case r of Inl error \<Rightarrow> (None, w') | Inr row \<Rightarrow> (Some row, w'))"

definition eventExists :: "env \<Rightarrow> remote_event \<Rightarrow> string \<Rightarrow> string \<Rightarrow> world \<Rightarrow> bool \<times> world" where
  "eventExists E event calendarUrl source w =
     (let normalizedCalendarUrl = normalizeCalendarUrl calendarUrl;
          (r, w') = ask (db_event_exists E)
                      (DbEventExists (ev_title event) (ev_date event) source
                         (or_null (ev_startTime event)) (or_null (ev_endTime event))
                         (if normalizedCalendarUrl \<noteq> [] then Some normalizedCalendarUrl else None)) w
      in if hard_error r then (False, w') else (resp_data r \<noteq> None, w'))"

section \<open>The relay client of services/caldav.ts\<close>

record SyncCollectionResult =
  events :: "remote_event list"
  syncToken :: "string option"
  hasDeletions :: bool

text \<open>
  \<open>fetchSyncCollection\<close> lets the exception of \<open>invokeCalDavProxy\<close> through and fills
  in the missing fields of the body: \<open>data?.events || []\<close>, \<open>data?.syncToken || null\<close>,
  \<open>Boolean(data?.hasDeletions)\<close>.
\<close>

definition fetchSyncCollection ::
  "env \<Rightarrow> CalDAVConfig \<Rightarrow> string \<Rightarrow> string \<Rightarrow> world \<Rightarrow> (string + SyncCollectionResult) \<times> world" where
  "fetchSyncCollection E config calendarUrl token w =
     (let (r, w') = ask (px_syncCollection E) (PxSyncCollection config calendarUrl token) w
      in case r of
           Inl err \<Rightarrow> (Inl err, w')
         | Inr None \<Rightarrow> (Inr \<lparr>events = [], syncToken = None, hasDeletions = False\<rparr>, w')
         | Inr (Some d) \<Rightarrow>
             (Inr \<lparr>events = (case sc_events d of None \<Rightarrow> [] | Some evs \<Rightarrow> evs),
                   syncToken = or_null (sc_syncToken d),
                   hasDeletions = (case sc_hasDeletions d of None \<Rightarrow> False | Some b \<Rightarrow> b)\<rparr>, w'))"

text \<open>
  \<open>fetchCalendarEvents\<close> throws when the proxy throws and when the body is not an array
  (both through its own \<open>catch\<close>, which throws a new error with the message).
\<close>

definition fetchCalendarEvents ::
  "env \<Rightarrow> CalDAVConfig \<Rightarrow> string \<Rightarrow> js_date \<Rightarrow> js_date \<Rightarrow> world
     \<Rightarrow> (string + remote_event list) \<times> world" where
  "fetchCalendarEvents E config calendarUrl startDate endDate w =
     (let (r, w') = ask (px_fetchEvents E) (PxFetchEvents config calendarUrl startDate endDate) w
      in case r of
           Inl err \<Rightarrow> (Inl err, w')
         | Inr None \<Rightarrow> (Inl ''fetchEvents: not an array'', w')
         | Inr (Some evs) \<Rightarrow> (Inr evs, w'))"

text \<open>\<open>fetchSyncToken\<close> never throws: \<open>data?.syncToken || null\<close>, and null on any error.\<close>

definition fetchSyncToken ::
  "env \<Rightarrow> CalDAVConfig \<Rightarrow> string \<Rightarrow> world \<Rightarrow> string option \<times> world" where
  "fetchSyncToken E config calendarUrl w =
     (let (r, w') = ask (px_getSyncToken E) (PxGetSyncToken config calendarUrl) w
      in case r of Inl err \<Rightarrow> (None, w') | Inr tok \<Rightarrow> (or_null tok, w'))"

definition getSyncTokenStorageKey :: "CalDAVConfig \<Rightarrow> string" where
  "getSyncTokenStorageKey config = ''caldavSyncTokens:'' @ serverUrl config @ '':'' @ username config"

definition readSyncTokens :: "env \<Rightarrow> CalDAVConfig \<Rightarrow> world \<Rightarrow> (string \<rightharpoonup> string)" where
  "readSyncTokens E config w =
     (if \<not> has_window E then Map.empty
      else case localStorage w (getSyncTokenStorageKey config) of
             None \<Rightarrow> Map.empty
           | Some LsUnparsable \<Rightarrow> Map.empty
           | Some (LsTokens m) \<Rightarrow> m)"

text \<open>\<open>writeSyncTokens\<close>: \<open>localStorage.setItem\<close> may throw, and nothing catches it here.\<close>

definition writeSyncTokens ::
  "env \<Rightarrow> CalDAVConfig \<Rightarrow> (string \<rightharpoonup> string) \<Rightarrow> world \<Rightarrow> (string + unit) \<times> world" where
  "writeSyncTokens E config tokens w =
     (if \<not> has_window E then (Inr (), w)
      else if ls_setItem_throws E (length (calls w)) then (Inl ''setItem'', w)
      else (Inr (), w\<lparr>localStorage := (localStorage w)(getSyncTokenStorageKey config \<mapsto> LsTokens tokens)\<rparr>))"

section \<open>syncSelectedCalendars (services/caldav.ts)\<close>

text \<open>
  \<open>Date.prototype.setFullYear\<close> keeps month, day and time; a 29 February moved into a
  year that is not a leap year overflows to 1 March.
\<close>

definition leap_year :: "int \<Rightarrow> bool" where
  "leap_year y = (y mod 4 = 0 \<and> (y mod 100 \<noteq> 0 \<or> y mod 400 = 0))"

definition setFullYear :: "js_date \<Rightarrow> int \<Rightarrow> js_date" where
  "setFullYear d y =
     (if d_month d = 1 \<and> d_date d = 29 \<and> \<not> leap_year y
      then d\<lparr>d_year := y, d_month := 2, d_date := 1\<rparr>
      else d\<lparr>d_year := y\<rparr>)"

definition new_Date :: "env \<Rightarrow> world \<Rightarrow> js_date \<times> world" where
  "new_Date E w = ask (\<lambda>i c. clock E i) ClockNow w"

text \<open>
  The field-level diff of the sync loop between the stored event \<open>existing\<close> and the
  fetched \<open>event\<close>; \<open>value ?? null\<close> is the identity on \<open>string option\<close>.
\<close>

definition compute_updates :: "stored_event \<Rightarrow> remote_event \<Rightarrow> event_updates" where
  "compute_updates existing event =
     \<lparr>up_title = (if st_title existing \<noteq> ev_title event then Some (ev_title event) else None),
      up_date = (if st_date existing \<noteq> ev_date event then Some (ev_date event) else None),
      up_memo = (if st_memo existing \<noteq> ev_memo event then Some (ev_memo event) else None),
      up_startTime = (if st_start_time existing \<noteq> ev_startTime event
                      then Some (ev_startTime event) else None),
      up_endTime = (if st_end_time existing \<noteq> ev_endTime event
                    then Some (ev_endTime event) else None),
      up_color = (if st_color existing \<noteq> ev_color event then Some (ev_color event) else None)\<rparr>"

text \<open>The variables of one calendar's pass that the loop over the fetched events changes.\<close>

record loop_state =
  currentEventUids :: "string set"
  calendarSyncedCount :: nat
  calendarSkippedCount :: nat

definition synced :: "loop_state \<Rightarrow> loop_state" where
  "synced l = l\<lparr>calendarSyncedCount := calendarSyncedCount l + 1\<rparr>"

definition skipped :: "loop_state \<Rightarrow> loop_state" where
  "skipped l = l\<lparr>calendarSkippedCount := calendarSkippedCount l + 1\<rparr>"

text \<open>The body of \<open>for (const event of eventsToProcess)\<close>.\<close>

definition process_event ::
  "env \<Rightarrow> string \<Rightarrow> remote_event \<Rightarrow> loop_state \<times> world \<Rightarrow> loop_state \<times> world" where
  "process_event E calendarUrl event lw =
     (let (l, w) = lw in
      if truthy (ev_uid event) then
        (let uid = or_empty (ev_uid event);
             l1 = l\<lparr>currentEventUids := insert uid (currentEventUids l)\<rparr>;
             (exists, w1) = eventExistsByUID E uid calendarUrl w
         in if exists then
              (let (existing, w2) = fetchEventByUID E uid calendarUrl w1
               in case existing of
                    None \<Rightarrow> (skipped l1, w2)
                  | Some ex \<Rightarrow>
                      (let updates = compute_updates ex event
                       in if updates \<noteq> no_updates then
                            (let (updated, w3) = updateEventByUID E uid calendarUrl updates w2
                             in if updated then (synced l1, w3) else (skipped l1, w3))
                          else (skipped l1, w2)))
            else
              (let (existingEventId, w2) = findEventByDetails E event calendarUrl w1
               in case existingEventId of
                    Some eventId \<Rightarrow>
                      (let (ok, w3) = updateEventUID E eventId uid calendarUrl w2
                       in (skipped l1, w3))
                  | None \<Rightarrow>
                      (let (result, w3) = createEvent E event (Some uid) calendarUrl ''caldav'' w2
                       in if result \<noteq> None then (synced l1, w3) else (l1, w3))))
      else
        (let (exists, w1) = eventExists E event calendarUrl ''caldav'' w
         in if \<not> exists then
              (let (result, w2) = createEvent E event (ev_uid event) calendarUrl ''caldav'' w1
               in if result \<noteq> None then (synced l, w2) else (l, w2))
            else (skipped l, w1)))"

primrec process_events ::
  "env \<Rightarrow> string \<Rightarrow> remote_event list \<Rightarrow> loop_state \<times> world \<Rightarrow> loop_state \<times> world" where
  "process_events E calendarUrl [] lw = lw"
| "process_events E calendarUrl (event # rest) lw =
     process_events E calendarUrl rest (process_event E calendarUrl event lw)"

text \<open>The variables of \<open>syncSelectedCalendars\<close> that live across the calendars.\<close>

record pass_state =
  syncedCount :: nat
  skippedCount :: nat
  deletedCount :: nat
  syncTokens :: "string \<rightharpoonup> string"

text \<open>
  Strategy selection: the incremental result that the pass will use, if any.  A stored
  token that is truthy is tried; a call that throws and a result with \<open>hasDeletions\<close>
  both leave \<open>syncResult = null\<close>.
\<close>

definition select_strategy ::
  "env \<Rightarrow> CalDAVConfig \<Rightarrow> string \<Rightarrow> string option \<Rightarrow> world
     \<Rightarrow> SyncCollectionResult option \<times> world" where
  "select_strategy E config calendarUrl token w =
     (let (syncResult, w1) =
            (if truthy token then
               (case fetchSyncCollection E config calendarUrl (or_empty token) w of
                  (Inl err, w') \<Rightarrow> (None, w')
                | (Inr res, w') \<Rightarrow> (Some res, w'))
             else (None, w))
      in case syncResult of
           Some res \<Rightarrow> if hasDeletions res then (None, w1) else (Some res, w1)
         | None \<Rightarrow> (None, w1))"

text \<open>
  The events to process and \<open>usedFullFetch\<close>.  The full fetch reads the clock twice, for
  the start one year back and the end one year forward, and its exception leaves the
  calendar's \<open>try\<close> block.
\<close>

definition events_to_process ::
  "env \<Rightarrow> CalDAVConfig \<Rightarrow> string \<Rightarrow> SyncCollectionResult option \<Rightarrow> world
     \<Rightarrow> (string + remote_event list \<times> bool) \<times> world" where
  "events_to_process E config calendarUrl syncResult w =
     (case syncResult of
        Some res \<Rightarrow> (Inr (events res, False), w)
      | None \<Rightarrow>
          (let (now1, w1) = new_Date E w;
               fullStartDate = setFullYear now1 (d_year now1 - 1);
               (now2, w2) = new_Date E w1;
               fullEndDate = setFullYear now2 (d_year now2 + 1);
               (r, w3) = fetchCalendarEvents E config calendarUrl fullStartDate fullEndDate w2
           in case r of Inl err \<Rightarrow> (Inl err, w3) | Inr evs \<Rightarrow> (Inr (evs, True), w3)))"

text \<open>
  Token persistence at the end of a calendar's pass.
\<close>

definition persist_token ::
  "env \<Rightarrow> CalDAVConfig \<Rightarrow> string \<Rightarrow> SyncCollectionResult option \<Rightarrow> bool
     \<Rightarrow> (string \<rightharpoonup> string) \<Rightarrow> world \<Rightarrow> (string \<rightharpoonup> string) \<times> world" where
  "persist_token E config calendarUrl syncResult usedFullFetch tokens w =
     (let newToken = (case syncResult of None \<Rightarrow> None | Some res \<Rightarrow> syncToken res)
      in if truthy newToken then (tokens(calendarUrl \<mapsto> or_empty newToken), w)
         else if usedFullFetch then
           (let (nextToken, w1) = fetchSyncToken E config calendarUrl w
            in if truthy nextToken then (tokens(calendarUrl \<mapsto> or_empty nextToken), w1)
               else (tokens, w1))
         else (tokens, w))"

text \<open>
  One turn of \<open>for (const rawCalendarUrl of selectedCalendarUrls)\<close>, with its
  \<open>try\<close>/\<open>catch\<close>: an exception (only the full fetch can throw) is logged and the pass
  goes on with the next calendar.
\<close>

definition sync_calendar ::
  "env \<Rightarrow> CalDAVConfig \<Rightarrow> string \<Rightarrow> pass_state \<times> world \<Rightarrow> pass_state \<times> world" where
  "sync_calendar E config rawCalendarUrl pw =
     (let (p, w) = pw;
          calendarUrl = normalizeCalendarUrl rawCalendarUrl;
          token = syncTokens p calendarUrl;
          (syncResult, w1) = select_strategy E config calendarUrl token w;
          (fetched, w2) = events_to_process E config calendarUrl syncResult w1
      in case fetched of
           Inl err \<Rightarrow> (p, w2)
         | Inr (eventsToProcess, usedFullFetch) \<Rightarrow>
             (let l0 = \<lparr>currentEventUids = {}, calendarSyncedCount = 0, calendarSkippedCount = 0\<rparr>;
                  (l, w3) = process_events E calendarUrl eventsToProcess (l0, w2);
                  p1 = p\<lparr>syncedCount := syncedCount p + calendarSyncedCount l,
                         skippedCount := skippedCount p + calendarSkippedCount l\<rparr>;
                  (deleted, w4) =
                     (if usedFullFetch
                      then deleteRemovedEvents E calendarUrl (currentEventUids l) eventsToProcess w3
                      else (0, w3));
                  p2 = p1\<lparr>deletedCount := deletedCount p1 + deleted\<rparr>;
                  (tokens, w5) =
                     persist_token E config calendarUrl syncResult usedFullFetch (syncTokens p2) w4
              in (p2\<lparr>syncTokens := tokens\<rparr>, w5)))"

primrec sync_calendars ::
  "env \<Rightarrow> CalDAVConfig \<Rightarrow> string list \<Rightarrow> pass_state \<times> world \<Rightarrow> pass_state \<times> world" where
  "sync_calendars E config [] pw = pw"
| "sync_calendars E config (rawCalendarUrl # rest) pw =
     sync_calendars E config rest (sync_calendar E config rawCalendarUrl pw)"

text \<open>
  The \<open>try\<close> block of \<open>syncSelectedCalendars\<close>: it returns \<open>-1\<close> when something was
  deleted and the count of synced events otherwise, or throws what \<open>writeSyncTokens\<close>
  throws.
\<close>

definition sync_pass ::
  "env \<Rightarrow> CalDAVConfig \<Rightarrow> string list \<Rightarrow> world \<Rightarrow> (string + int) \<times> world" where
  "sync_pass E config selectedCalendarUrls w =
     (let p0 = \<lparr>syncedCount = 0, skippedCount = 0, deletedCount = 0,
                 syncTokens = readSyncTokens E config w\<rparr>;
          (p, w1) = sync_calendars E config selectedCalendarUrls (p0, w);
          (written, w2) = writeSyncTokens E config (syncTokens p) w1
      in case written of
           Inl err \<Rightarrow> (Inl err, w2)
         | Inr u \<Rightarrow> if deletedCount p > 0 then (Inr (- 1), w2) else (Inr (int (syncedCount p)), w2))"

text \<open>
  The whole function: the guard on \<open>syncInFlight\<close>, then the \<open>try\<close> block with
  \<open>finally { syncInFlight = false }\<close>, which runs on a return and on an exception.
\<close>

definition syncSelectedCalendars ::
  "env \<Rightarrow> CalDAVConfig \<Rightarrow> string list \<Rightarrow> world \<Rightarrow> (string + int) \<times> world" where
  "syncSelectedCalendars E config selectedCalendarUrls w =
     (if syncInFlight w then (Inr 0, w)
      else
        (let (r, w') = sync_pass E config selectedCalendarUrls (w\<lparr>syncInFlight := True\<rparr>)
         in (r, w'\<lparr>syncInFlight := False\<rparr>)))"

section \<open>deleteEvent of the CalDAV proxy (the edge function)\<close>

text \<open>Decimal digits of a number, as \<open>String(n)\<close> and template strings print it.\<close>

definition digit_char :: "nat \<Rightarrow> char" where
  "digit_char n = char_of (48 + n)"

function show_nat :: "nat \<Rightarrow> string" where
  "show_nat n = (if n < 10 then [digit_char n] else show_nat (n div 10) @ [digit_char (n mod 10)])"
  by pat_completeness auto
termination
  by (relation "measure id") auto

declare show_nat.simps [simp del]

text \<open>
  The proxy talks to the CalDAV server with \<open>fetch\<close>.  A request is its method, URL and
  headers; of a response the code reads the status and \<open>ok\<close>, which the Fetch standard
  defines as a status from 200 to 299.  \<open>fetch\<close> itself throws when the network fails
  (\<open>Inl\<close>).  The answers come from the server, which sees how many requests were sent
  before; \<open>btoa_latin1\<close> stands for the platform's
  \<open>btoa(unescape(encodeURIComponent(str)))\<close> of \<open>base64Encode\<close>.
\<close>

record http_request =
  rq_method :: string
  rq_url :: string
  rq_headers :: "(string \<times> string) list"

record http_response =
  rs_status :: nat

definition response_ok :: "http_response \<Rightarrow> bool" where
  "response_ok r = (200 \<le> rs_status r \<and> rs_status r \<le> 299)"

record server =
  http_fetch :: "nat \<Rightarrow> http_request \<Rightarrow> string + http_response"
  btoa_latin1 :: "string \<Rightarrow> string"

record delete_result =
  success :: bool

definition base64Encode :: "server \<Rightarrow> string \<Rightarrow> string" where
  "base64Encode S str = btoa_latin1 S str"

text \<open>
  The URL of the resource: the calendar URL, with a slash at its end, and the UID, with
  \<open>.ics\<close> at its end.
\<close>

definition resource_url :: "string \<Rightarrow> string \<Rightarrow> string" where
  "resource_url calendarUrl eventUid =
     (let base = (if suffix ''/'' calendarUrl then calendarUrl else calendarUrl @ ''/'');
          filename = (if suffix ''.ics'' eventUid then eventUid else eventUid @ ''.ics'')
      in base @ filename)"

definition delete_headers :: "server \<Rightarrow> string \<Rightarrow> string \<Rightarrow> string option \<Rightarrow> (string \<times> string) list" where
  "delete_headers S user pass etag =
     [(''Authorization'', ''Basic '' @ base64Encode S (user @ '':'' @ pass)),
      (''User-Agent'', ''Vividly/1.0'')]
     @ (if truthy etag then [(''If-Match'', [CHR 0x22] @ or_empty etag @ [CHR 0x22])] else [])"

text \<open>
  \<open>deleteEvent\<close>: one \<open>DELETE\<close>; it throws unless the response is \<open>ok\<close> or has the
  status 404.  The last argument and the second result are the requests sent so far.
\<close>

definition deleteEvent ::
  "server \<Rightarrow> string \<Rightarrow> string \<Rightarrow> string \<Rightarrow> string \<Rightarrow> string \<Rightarrow> string option
     \<Rightarrow> http_request list \<Rightarrow> (string + delete_result) \<times> http_request list" where
  "deleteEvent S server_url user pass calendarUrl eventUid etag sent =
     (let url = resource_url calendarUrl eventUid;
          headers = delete_headers S user pass etag;
          request = \<lparr>rq_method = ''DELETE'', rq_url = url, rq_headers = headers\<rparr>
      in case http_fetch S (length sent) request of
           Inl err \<Rightarrow> (Inl err, sent @ [request])
         | Inr response \<Rightarrow>
             if \<not> response_ok response \<and> rs_status response \<noteq> 404
             then (Inl (''DELETE request failed: '' @ show_nat (rs_status response)),
                   sent @ [request])
             else (Inr \<lparr>success = True\<rparr>, sent @ [request]))"

section \<open>Calendar dates of the platform\<close>

text \<open>
  A calendar date: year, month (1 to 12), day of the month.  The JavaScript \<open>Date\<close> and
  the \<open>ICAL.Time\<close> of ical.js are not code of this repository; they are modelled here
  from the ECMAScript specification and the library's documented behaviour, as far as
  \<open>serializeEventToICS\<close> and \<open>parseICalEvent\<close> use them.
\<close>

record civil =
  c_year :: int
  c_month :: nat
  c_day :: nat

definition days_in_month :: "int \<Rightarrow> nat \<Rightarrow> nat" where
  "days_in_month y m =
     (if m = 2 then (if leap_year y then 29 else 28)
      else if m = 4 \<or> m = 6 \<or> m = 9 \<or> m = 11 then 30 else 31)"

definition valid_civil :: "civil \<Rightarrow> bool" where
  "valid_civil c =
     (1 \<le> c_month c \<and> c_month c \<le> 12 \<and> 1 \<le> c_day c \<and>
      c_day c \<le> days_in_month (c_year c) (c_month c))"

definition next_day :: "civil \<Rightarrow> civil" where
  "next_day c =
     (if c_day c < days_in_month (c_year c) (c_month c) then c\<lparr>c_day := c_day c + 1\<rparr>
      else if c_month c < 12 then c\<lparr>c_month := c_month c + 1, c_day := 1\<rparr>
      else \<lparr>c_year = c_year c + 1, c_month = 1, c_day = 1\<rparr>)"

definition prev_day :: "civil \<Rightarrow> civil" where
  "prev_day c =
     (if 1 < c_day c then c\<lparr>c_day := c_day c - 1\<rparr>
      else if 1 < c_month c
           then c\<lparr>c_month := c_month c - 1,
                  c_day := days_in_month (c_year c) (c_month c - 1)\<rparr>
      else \<lparr>c_year = c_year c - 1, c_month = 12, c_day = 31\<rparr>)"

definition shift_days :: "civil \<Rightarrow> int \<Rightarrow> civil" where
  "shift_days c k = (if 0 \<le> k then (next_day ^^ nat k) c else (prev_day ^^ nat (- k)) c)"

text \<open>\<open>String(n).padStart(width, '0')\<close>.\<close>

definition pad_start :: "nat \<Rightarrow> nat \<Rightarrow> string" where
  "pad_start width n = replicate (width - length (show_nat n)) (CHR ''0'') @ show_nat n"

text \<open>
  The date part of \<open>toISOString()\<close>: \<open>YYYY-MM-DD\<close>, and a sign with six digits for a
  year outside 0 to 9999.
\<close>

definition iso_year :: "int \<Rightarrow> string" where
  "iso_year y =
     (if 0 \<le> y \<and> y \<le> 9999 then pad_start 4 (nat y)
      else (if y < 0 then ''-'' else ''+'') @ pad_start 6 (nat \<bar>y\<bar>))"

definition iso_date :: "civil \<Rightarrow> string" where
  "iso_date c = iso_year (c_year c) @ ''-'' @ pad_start 2 (c_month c) @ ''-'' @ pad_start 2 (c_day c)"

text \<open>The value of a text made of decimal digits only.\<close>

definition is_digit :: "char \<Rightarrow> bool" where
  "is_digit c = (48 \<le> (of_char c :: nat) \<and> (of_char c :: nat) \<le> 57)"

definition digits_value :: "string \<Rightarrow> nat option" where
  "digits_value s =
     (if s \<noteq> [] \<and> list_all is_digit s
      then Some (foldl (\<lambda>a c. a * 10 + (of_char c - 48)) 0 s) else None)"

text \<open>
  \<open>new Date(text)\<close> on the two forms that the encoder builds from well-formed fields:
  the date-only form \<open>YYYY-MM-DD\<close> and the time \<open>HH:MM\<close> or \<open>HH:MM:SS\<close> of the
  date-time form.  Only a date that exists and a time of the day are accepted; on any
  other text the parsers of the engines differ, and the model gives no result (\<open>None\<close>).
\<close>

definition parse_iso_date :: "string \<Rightarrow> civil option" where
  "parse_iso_date s =
     (if length s = 10 \<and> s ! 4 = CHR ''-'' \<and> s ! 7 = CHR ''-'' then
        (case (digits_value (take 4 s), digits_value (take 2 (drop 5 s)),
               digits_value (take 2 (drop 8 s))) of
           (Some y, Some m, Some d) \<Rightarrow>
             (let c = \<lparr>c_year = int y, c_month = m, c_day = d\<rparr>
              in if valid_civil c then Some c else None)
         | _ \<Rightarrow> None)
      else None)"

definition parse_iso_time :: "string \<Rightarrow> (nat \<times> nat \<times> nat) option" where
  "parse_iso_time s =
     (if length s = 5 \<and> s ! 2 = CHR '':'' then
        (case (digits_value (take 2 s), digits_value (take 2 (drop 3 s))) of
           (Some h, Some m) \<Rightarrow> if h < 24 \<and> m < 60 then Some (h, m, 0) else None
         | _ \<Rightarrow> None)
      else if length s = 8 \<and> s ! 2 = CHR '':'' \<and> s ! 5 = CHR '':'' then
        (case (digits_value (take 2 s), digits_value (take 2 (drop 3 s)),
               digits_value (take 2 (drop 6 s))) of
           (Some h, Some m, Some sec) \<Rightarrow>
             if h < 24 \<and> m < 60 \<and> sec < 60 then Some (h, m, sec) else None
         | _ \<Rightarrow> None)
      else None)"

section \<open>serializeEventToICS (services/icsParser.ts)\<close>

text \<open>
  Texts.  A JavaScript string is a sequence of UTF-16 code units.  A character of the
  model is a code unit from U+0000 to U+00FF, and a text of the model is a string of
  such code units; strings with a code unit above U+00FF are outside the model.
\<close>

text \<open>The fields of the \<open>Partial<Event>\<close> that the encoder reads.\<close>

record app_event =
  e_title :: "string option"
  e_memo :: "string option"
  e_caldavUid :: "string option"
  e_date :: "string option"
  e_startTime :: "string option"
  e_endTime :: "string option"

text \<open>
  What the encoder takes from its platform: the offset of the local time zone in minutes
  east of UTC (a fixed offset, more than \<open>-24\<close> hours), the local date and time of the
  clock for \<open>DTSTAMP\<close>, and the text that
  \<open>`vividly-${Date.now()}-${Math.random().toString(36).substr(2, 9)}`\<close> gives.
\<close>

record platform =
  tz_offset :: int
  now_date :: civil
  now_time :: "nat \<times> nat \<times> nat"
  fresh_uid :: string

definition CRLF :: string where
  "CRLF = [CHR 0x0D, CHR 0x0A]"

text \<open>
  The text value of a property as ical.js writes it: backslash, semicolon, comma and
  newline are escaped.
\<close>

fun escape_char :: "char \<Rightarrow> string" where
  "escape_char c =
     (if c = CHR 0x5C then [CHR 0x5C, CHR 0x5C]
      else if c = CHR '';'' then [CHR 0x5C, CHR '';'']
      else if c = CHR '','' then [CHR 0x5C, CHR '','']
      else if c = CHR 0x0A then [CHR 0x5C, CHR ''n'']
      else [c])"

definition escape_text :: "string \<Rightarrow> string" where
  "escape_text s = concat (map escape_char s)"

text \<open>
  \<open>ICAL.helpers.foldline\<close>: a content line longer than 75 is cut into pieces of 75, and
  each further piece starts a new line with a space.  (The library counts UTF-16 units or
  octets, depending on its version; on ASCII text these are the characters.)
\<close>

function foldline :: "string \<Rightarrow> string" where
  "foldline l = (if length l \<le> 75 then l else take 75 l @ CRLF @ '' '' @ foldline (drop 75 l))"
  by pat_completeness auto
termination
  by (relation "measure length") auto

declare foldline.simps [simp del]

text \<open>
  The value of a date and of a date-time property, \<open>YYYYMMDD\<close> and \<open>YYYYMMDDTHHMMSS\<close>.
  ical.js prints the year without padding and then cuts the text at fixed positions, so
  the model gives a result for a year of four digits only.
\<close>

definition ical_date :: "civil \<Rightarrow> string option" where
  "ical_date c =
     (if 1000 \<le> c_year c \<and> c_year c \<le> 9999
      then Some (show_nat (nat (c_year c)) @ pad_start 2 (c_month c) @ pad_start 2 (c_day c))
      else None)"

definition ical_date_time :: "civil \<Rightarrow> nat \<times> nat \<times> nat \<Rightarrow> string option" where
  "ical_date_time c t =
     (case (ical_date c, t) of
        (Some d, (h, m, s)) \<Rightarrow> Some (d @ ''T'' @ pad_start 2 h @ pad_start 2 m @ pad_start 2 s)
      | (None, _) \<Rightarrow> None)"

text \<open>
  \<open>new Date(event.date)\<close> is midnight UTC of the date; \<open>ICAL.Time.fromJSDate\<close> reads
  it, and \<open>setDate(getDate() + 1)\<close> moves it, through the local-time getters.  The local
  date at midnight UTC is the day before when the zone is behind UTC.
\<close>

definition local_date_of_utc_midnight :: "platform \<Rightarrow> civil \<Rightarrow> civil" where
  "local_date_of_utc_midnight P c = (if tz_offset P < 0 then prev_day c else c)"

text \<open>
  The lines for \<open>DTSTART\<close> and \<open>DTEND\<close>: none without a date; date-times in floating
  local time when both times are given; dates (the day and the day after) otherwise.
\<close>

definition date_lines :: "platform \<Rightarrow> app_event \<Rightarrow> string list option" where
  "date_lines P event =
     (if \<not> truthy (e_date event) then Some []
      else if truthy (e_startTime event) \<and> truthy (e_endTime event) then
        (case (parse_iso_date (or_empty (e_date event)),
               parse_iso_time (or_empty (e_startTime event)),
               parse_iso_time (or_empty (e_endTime event))) of
           (Some c, Some ts, Some te) \<Rightarrow>
             (case (ical_date_time c ts, ical_date_time c te) of
                (Some start, Some fin) \<Rightarrow> Some [''DTSTART:'' @ start, ''DTEND:'' @ fin]
              | _ \<Rightarrow> None)
         | _ \<Rightarrow> None)
      else
        (case parse_iso_date (or_empty (e_date event)) of
           Some c \<Rightarrow>
             (let start = local_date_of_utc_midnight P c;
                  nextDay = next_day start
              in case (ical_date start, ical_date nextDay) of
                   (Some s, Some e) \<Rightarrow>
                     Some [''DTSTART;VALUE=DATE:'' @ s, ''DTEND;VALUE=DATE:'' @ e]
                 | _ \<Rightarrow> None)
         | None \<Rightarrow> None))"

text \<open>
  The default title of the encoder (Korean for ``new event'').  Its code units are above
  U+00FF; it stands here as the bytes of its UTF-8 form.  The decoder meets it only inside
  the value of \<open>SUMMARY\<close>.
\<close>

definition default_title :: string where
  "default_title =
     [CHR 0xEC, CHR 0x83, CHR 0x88, CHR 0xEB, CHR 0xA1, CHR 0x9C, CHR 0xEC, CHR 0x9A, CHR 0xB4,
      CHR 0x20, CHR 0xEC, CHR 0x9D, CHR 0xBC, CHR 0xEC, CHR 0xA0, CHR 0x95]"

fun join_lines :: "string list \<Rightarrow> string" where
  "join_lines [] = []"
| "join_lines [l] = l"
| "join_lines (l # ls) = l @ CRLF @ join_lines ls"

text \<open>
  The text of \<open>comp.toString()\<close> for the component that \<open>serializeEventToICS\<close>
  builds: the properties in the order in which the function sets them, every property
  line folded, the lines joined by CRLF.
\<close>

definition calendar_text :: "string \<Rightarrow> string \<Rightarrow> string \<Rightarrow> string list \<Rightarrow> string \<Rightarrow> string" where
  "calendar_text summary description uid dates stamp =
     join_lines
       ([''BEGIN:VCALENDAR'',
         foldline (''PRODID:'' @ escape_text ''-//Vividly App//KR''),
         foldline (''VERSION:'' @ escape_text ''2.0''),
         ''BEGIN:VEVENT'',
         foldline (''SUMMARY:'' @ escape_text summary),
         foldline (''DESCRIPTION:'' @ escape_text description),
         foldline (''UID:'' @ escape_text uid)]
        @ map foldline dates
        @ [foldline (''DTSTAMP:'' @ stamp), ''END:VEVENT'', ''END:VCALENDAR''])"

definition serializeEventToICS :: "platform \<Rightarrow> app_event \<Rightarrow> string option" where
  "serializeEventToICS P event =
     (let summary = (if truthy (e_title event) then or_empty (e_title event) else default_title);
          description = or_empty (e_memo event);
          uid = (if truthy (e_caldavUid event) then or_empty (e_caldavUid event) else fresh_uid P)
      in case (date_lines P event, ical_date_time (now_date P) (now_time P)) of
           (Some dates, Some now) \<Rightarrow> Some (calendar_text summary description uid dates now)
         | _ \<Rightarrow> None)"

section \<open>parseICalEvent of the CalDAV proxy\<close>

text \<open>
  The regular expressions of \<open>parseICalEvent\<close>, each written as the function that
  \<open>String.prototype.match\<close> computes for it: the capture of the leftmost match.
  \<open>[^\r\n]\<close> is any character but CR and LF, and so is \<open>.\<close> here (the separators
  U+2028 and U+2029, which \<open>.\<close> also refuses, are not characters of the model).
\<close>

definition line_break :: "char \<Rightarrow> bool" where
  "line_break c = (c = CHR 0x0D \<or> c = CHR 0x0A)"

text \<open>\<open>([^\r\n]+)\<close> at the start of a text: the longest run, which must not be empty.\<close>

definition value_run :: "string \<Rightarrow> string option" where
  "value_run s =
     (let v = takeWhile (\<lambda>c. \<not> line_break c) s in if v = [] then None else Some v)"

text \<open>
  \<open>.*?:([^\r\n]+)\<close> after the semicolon of \<open>(?:;.*?)?\<close>: the lazy \<open>.*?\<close> stops at
  the first colon that a value follows, and cannot pass a line break.
\<close>

fun lazy_to_colon :: "string \<Rightarrow> string option" where
  "lazy_to_colon [] = None"
| "lazy_to_colon (c # cs) =
     (if c = CHR '':'' \<and> value_run cs \<noteq> None then value_run cs
      else if line_break c then None
      else lazy_to_colon cs)"

text \<open>\<open>(?:;.*?)?:([^\r\n]+)\<close> after the name of the property.\<close>

fun after_name :: "string \<Rightarrow> string option" where
  "after_name [] = None"
| "after_name (c # cs) =
     (if c = CHR '';'' then lazy_to_colon cs
      else if c = CHR '':'' then value_run cs
      else None)"

definition match_at :: "string \<Rightarrow> string \<Rightarrow> string option" where
  "match_at name s = (if prefix name s then after_name (drop (length name) s) else None)"

text \<open>\<open>text.match(/NAME(?:;.*?)?:([^\r\n]+)/)\<close>: the first position with a match.\<close>

fun regex_first :: "string \<Rightarrow> string \<Rightarrow> string option" where
  "regex_first name [] = match_at name []"
| "regex_first name (c # cs) =
     (case match_at name (c # cs) of
        Some v \<Rightarrow> Some v
      | None \<Rightarrow> regex_first name cs)"

text \<open>
  The expressions for \<open>SUMMARY\<close> and \<open>DESCRIPTION\<close> go on over folded lines,
  \<open>([^\r\n]+(?:\r?\n [^\r\n]+)*)\<close>; then \<open>.replace(/\r?\n /g, '')\<close> takes the folds
  out.  \<open>continuation\<close> is the text after a value that its folded lines add,
  the folds removed.
\<close>

function continuation :: "string \<Rightarrow> string" where
  "continuation s =
     (if take 3 s = [CHR 0x0D, CHR 0x0A, CHR '' ''] then
        (case value_run (drop 3 s) of
           None \<Rightarrow> []
         | Some v \<Rightarrow> v @ continuation (drop (3 + length v) s))
      else if take 2 s = [CHR 0x0A, CHR '' ''] then
        (case value_run (drop 2 s) of
           None \<Rightarrow> []
         | Some v \<Rightarrow> v @ continuation (drop (2 + length v) s))
      else [])"
  by pat_completeness auto
termination
  apply (relation "measure length")
    apply simp
   apply (case_tac s; simp)
  apply (case_tac s; simp)
  done

declare continuation.simps [simp del]

text \<open>
  The value of a folded property with the folds removed: the position of the match and
  the first line are those of \<open>regex_first\<close>.
\<close>

fun after_name_folded :: "string \<Rightarrow> string option" where
  "after_name_folded [] = None"
| "after_name_folded (c # cs) =
     (if c = CHR '':'' \<and> value_run cs \<noteq> None
      then Some (the (value_run cs) @ continuation (drop (length (the (value_run cs))) cs))
      else None)"

fun lazy_to_colon_folded :: "string \<Rightarrow> string option" where
  "lazy_to_colon_folded [] = None"
| "lazy_to_colon_folded (c # cs) =
     (if c = CHR '':'' \<and> value_run cs \<noteq> None then after_name_folded (c # cs)
      else if line_break c then None
      else lazy_to_colon_folded cs)"

definition match_folded_at :: "string \<Rightarrow> string \<Rightarrow> string option" where
  "match_folded_at name s =
     (if prefix name s then
        (case drop (length name) s of
           [] \<Rightarrow> None
         | c # cs \<Rightarrow> if c = CHR '';'' then lazy_to_colon_folded cs
                     else after_name_folded (c # cs))
      else None)"

fun regex_first_folded :: "string \<Rightarrow> string \<Rightarrow> string option" where
  "regex_first_folded name [] = match_folded_at name []"
| "regex_first_folded name (c # cs) =
     (case match_folded_at name (c # cs) of
        Some v \<Rightarrow> Some v
      | None \<Rightarrow> regex_first_folded name cs)"

text \<open>
  \<open>String.prototype.trim\<close> removes, at both ends, the code units that are
  \<open>WhiteSpace\<close> or \<open>LineTerminator\<close> in ECMAScript: U+0009, U+000B, U+000C, U+0020,
  U+00A0, U+FEFF and the other space separators (U+1680, U+2000 to U+200A, U+202F,
  U+205F, U+3000), and U+000A, U+000D, U+2028, U+2029.  Seven of them are characters of
  the model.  \<open>parseInt\<close> skips the same code units at the start of its argument.
\<close>

definition js_space :: "char \<Rightarrow> bool" where
  "js_space c =
     (c \<in> set [CHR 0x09, CHR 0x0A, CHR 0x0B, CHR 0x0C, CHR 0x0D, CHR 0x20, CHR 0xA0])"

definition trim :: "string \<Rightarrow> string" where
  "trim s = rev (dropWhile js_space (rev (dropWhile js_space s)))"

text \<open>
  \<open>parseInt(text)\<close> without a radix: white space, a sign, \<open>0x\<close> for base 16, then the
  longest run of digits; \<open>NaN\<close> (\<open>None\<close>) when there is no digit.
\<close>

definition digit_in :: "nat \<Rightarrow> char \<Rightarrow> nat option" where
  "digit_in radix c =
     (let n = (of_char c :: nat);
          v = (if 48 \<le> n \<and> n \<le> 57 then Some (n - 48)
               else if 97 \<le> n \<and> n \<le> 122 then Some (n - 87)
               else if 65 \<le> n \<and> n \<le> 90 then Some (n - 55)
               else None)
      in case v of None \<Rightarrow> None | Some d \<Rightarrow> if d < radix then Some d else None)"

definition parse_digits :: "nat \<Rightarrow> string \<Rightarrow> nat option" where
  "parse_digits radix s =
     (let ds = takeWhile (\<lambda>c. digit_in radix c \<noteq> None) s
      in if ds = [] then None
         else Some (foldl (\<lambda>a c. a * radix + the (digit_in radix c)) 0 ds))"

definition parseInt :: "string \<Rightarrow> int option" where
  "parseInt s =
     (let s1 = dropWhile js_space s;
          negative = (take 1 s1 = ''-'');
          s2 = (if take 1 s1 = ''-'' \<or> take 1 s1 = ''+'' then drop 1 s1 else s1);
          hex = (take 2 s2 = ''0x'' \<or> take 2 s2 = ''0X'');
          magnitude = (if hex then parse_digits 16 (drop 2 s2) else parse_digits 10 s2)
      in case magnitude of
           None \<Rightarrow> None
         | Some n \<Rightarrow> Some (if negative then - int n else int n))"

text \<open>
  \<open>new Date(Date.UTC(year, month, day, hour, minute))\<close> read back through
  \<open>toISOString\<close>, \<open>getUTCHours\<close> and \<open>getUTCMinutes\<close>: an argument that is
  \<open>NaN\<close> gives an invalid date (\<open>None\<close>); a year from 0 to 99 counts from 1900;
  months, days, hours and minutes out of their ranges carry over.  (The arguments that
  \<open>parseICalEvent\<close> passes have at most four digits, so the time value is in range.)
\<close>

record utc_time =
  u_date :: civil
  u_hours :: nat
  u_minutes :: nat

definition Date_UTC ::
  "int option \<Rightarrow> int option \<Rightarrow> int option \<Rightarrow> int option \<Rightarrow> int option \<Rightarrow> utc_time option" where
  "Date_UTC year month day hour minute =
     (case (year, month, day, hour, minute) of
        (Some y, Some m, Some d, Some h, Some mi) \<Rightarrow>
          (let yr = (if 0 \<le> y \<and> y \<le> 99 then 1900 + y else y);
               total = h * 60 + mi;
               first = \<lparr>c_year = yr + m div 12, c_month = nat (m mod 12) + 1, c_day = 1\<rparr>
           in Some \<lparr>u_date = shift_days first (d - 1 + total div 1440),
                    u_hours = nat (total mod 1440 div 60),
                    u_minutes = nat (total mod 1440 mod 60)\<rparr>)
      | _ \<Rightarrow> None)"

text \<open>The decoded event; \<open>None\<close> is a field that is \<open>undefined\<close>.\<close>

record parsed_event =
  p_date :: string
  p_title :: string
  p_memo :: "string option"
  p_startTime :: "string option"
  p_endTime :: "string option"
  p_color :: string
  p_uid :: "string option"

text \<open>
  The date of \<open>DTSTART\<close> or \<open>DTEND\<close>: eight characters are a date, fifteen or more a
  date with hours and minutes, anything else no date at all (the outer \<open>None\<close>).
\<close>

definition parse_dt :: "string \<Rightarrow> utc_time option option" where
  "parse_dt dt =
     (let year = parseInt (take 4 dt);
          month = map_option (\<lambda>m. m - 1) (parseInt (take 2 (drop 4 dt)));
          day = parseInt (take 2 (drop 6 dt))
      in if length dt = 8 then Some (Date_UTC year month day (Some 0) (Some 0))
         else if length dt \<ge> 15 then
           Some (Date_UTC year month day
                   (parseInt (take 2 (drop 9 dt))) (parseInt (take 2 (drop 11 dt))))
         else None)"

text \<open>
  \<open>`${String(d.getUTCHours()).padStart(2, '0')}:${String(d.getUTCMinutes()).padStart(2, '0')}`\<close>;
  on an invalid date both numbers print as \<open>NaN\<close>.
\<close>

definition hh_mm :: "nat \<Rightarrow> nat \<Rightarrow> string" where
  "hh_mm h m = pad_start 2 h @ '':'' @ pad_start 2 m"

definition clock_time :: "utc_time option \<Rightarrow> string" where
  "clock_time d =
     (case d of
        None \<Rightarrow> ''NaN:NaN''
      | Some u \<Rightarrow> hh_mm (u_hours u) (u_minutes u))"

text \<open>\<open>.replace('#', '')\<close>: the first \<open>#\<close> is taken out.\<close>

fun remove_first_hash :: "string \<Rightarrow> string" where
  "remove_first_hash [] = []"
| "remove_first_hash (c # cs) = (if c = CHR ''#'' then cs else c # remove_first_hash cs)"

text \<open>
  \<open>parseICalEvent\<close>.  An exception inside (only \<open>toISOString\<close> of an invalid start
  date throws) is caught and gives \<open>null\<close>, as a missing or malformed \<open>DTSTART\<close> does.
\<close>

definition parseICalEvent :: "string \<Rightarrow> string \<Rightarrow> parsed_event option" where
  "parseICalEvent icalData defaultColor =
     (let uidMatch = regex_first ''UID'' icalData;
          summaryMatch = regex_first_folded ''SUMMARY'' icalData;
          descriptionMatch = regex_first_folded ''DESCRIPTION'' icalData;
          dtstartMatch = regex_first ''DTSTART'' icalData;
          dtendMatch = regex_first ''DTEND'' icalData;
          colorMatch = regex_first ''X-APPLE-CALENDAR-COLOR'' icalData
      in case dtstartMatch of
           None \<Rightarrow> None
         | Some dtstart_raw \<Rightarrow>
             (let uid = map_option trim uidMatch;
                  summary = (case summaryMatch of None \<Rightarrow> [] | Some v \<Rightarrow> trim v);
                  description = (case descriptionMatch of None \<Rightarrow> [] | Some v \<Rightarrow> trim v);
                  dtstart = trim dtstart_raw;
                  dtend = map_option trim dtendMatch;
                  color = (case colorMatch of
                             None \<Rightarrow> defaultColor
                           | Some v \<Rightarrow> ''#'' @ remove_first_hash (trim v))
              in case parse_dt dtstart of
                   None \<Rightarrow> None
                 | Some startDate \<Rightarrow>
                     (let endDate = (if truthy dtend then parse_dt (or_empty dtend) else None)
                      in case startDate of
                           None \<Rightarrow> None
                         | Some start \<Rightarrow>
                             Some \<lparr>p_date = iso_date (u_date start),
                                   p_title = summary,
                                   p_memo = (if description \<noteq> [] then Some description else None),
                                   p_startTime =
                                     (if length dtstart > 8 then Some (clock_time startDate)
                                      else None),
                                   p_endTime =
                                     (if endDate \<noteq> None \<and> truthy dtend
                                         \<and> length (or_empty dtend) > 8
                                      then Some (clock_time (the endDate)) else None),
                                   p_color = color,
                                   p_uid = uid\<rparr>)))"

section \<open>Measures on the log and example inputs\<close>

text \<open>
  Two measures of a logged call, read off the answer it got: whether it is an \<open>insert\<close>
  or an \<open>update\<close> by UID that the store accepted (whatever its payload carried), and
  the number of rows it deleted (the ids of an accepted batch).
\<close>

fun accepted_writes :: "env \<Rightarrow> nat \<Rightarrow> io_call \<Rightarrow> nat" where
  "accepted_writes E i (DbInsert payload) =
     (case db_insert E i (DbInsert payload) of Inl err \<Rightarrow> 0 | Inr row \<Rightarrow> 1)"
| "accepted_writes E i (DbUpdateByUID uid url payload) =
     (if db_update_by_uid E i (DbUpdateByUID uid url payload) = None then 1 else 0)"
| "accepted_writes E i c = 0"

fun deleted_rows :: "env \<Rightarrow> nat \<Rightarrow> io_call \<Rightarrow> nat" where
  "deleted_rows E i (DbDeleteIds ids) =
     (if db_delete_ids E i (DbDeleteIds ids) = None then length ids else 0)"
| "deleted_rows E i c = 0"

text \<open>The sum of a measure over calls logged from position \<open>i\<close> on.\<close>

primrec tally_from :: "(nat \<Rightarrow> io_call \<Rightarrow> nat) \<Rightarrow> nat \<Rightarrow> io_call list \<Rightarrow> nat" where
  "tally_from f i [] = 0"
| "tally_from f i (c # cs) = f i c + tally_from f (Suc i) cs"

definition tally :: "(nat \<Rightarrow> io_call \<Rightarrow> nat) \<Rightarrow> world \<Rightarrow> world \<Rightarrow> nat" where
  "tally f w w' = tally_from f (length (calls w)) (new_calls w w')"

text \<open>
  A step from \<open>w\<close> to \<open>w'\<close> that only appends calls to the log, with the number of
  accepted writes and of deleted rows among those calls, and leaves the flag and the
  local storage alone.
\<close>

definition step :: "env \<Rightarrow> world \<Rightarrow> world \<Rightarrow> nat \<Rightarrow> nat \<Rightarrow> bool" where
  "step E w w' n_synced n_deleted =
     (prefix (calls w) (calls w') \<and>
      tally (accepted_writes E) w w' = n_synced \<and>
      tally (deleted_rows E) w w' = n_deleted \<and>
      syncInFlight w' = syncInFlight w \<and> localStorage w' = localStorage w)"

text \<open>
  Kinds of calls: the full time-ranged fetch; the two requests of deletion detection (the
  read of the calendar's stored events and the delete of a batch).
\<close>

fun is_full_fetch :: "io_call \<Rightarrow> bool" where
  "is_full_fetch (PxFetchEvents config url startDate endDate) = True"
| "is_full_fetch _ = False"

fun is_deletion_check :: "io_call \<Rightarrow> bool" where
  "is_deletion_check (DbSelectCaldavEvents urls) = True"
| "is_deletion_check (DbDeleteIds ids) = True"
| "is_deletion_check _ = False"

text \<open>
  Requests that change the stored events: an insert, an update by UID whose payload has
  at least one column, the attachment of a UID to a row, the deletion of at least one id.
\<close>

fun changes_the_store :: "io_call \<Rightarrow> bool" where
  "changes_the_store (DbInsert payload) = True"
| "changes_the_store (DbUpdateByUID uid url payload) =
     (payload \<noteq> \<lparr>pl_title = None, pl_date = None, pl_memo = None,
                  pl_start_time = None, pl_end_time = None\<rparr>)"
| "changes_the_store (DbUpdateUID eventId uid url) = True"
| "changes_the_store (DbDeleteIds ids) = (ids \<noteq> [])"
| "changes_the_store _ = False"

text \<open>A step that only appends calls with the property \<open>P\<close> to the log.\<close>

definition only :: "(io_call \<Rightarrow> bool) \<Rightarrow> world \<Rightarrow> world \<Rightarrow> bool" where
  "only P w w' = (prefix (calls w) (calls w') \<and> list_all P (new_calls w w'))"

definition reconciling :: "io_call \<Rightarrow> bool" where
  "reconciling c = (\<not> is_full_fetch c \<and> \<not> is_deletion_check c)"

text \<open>
  The value of a date or date-time property as the encoder writes it: at most fifteen
  characters, digits and the letter \<open>T\<close>.
\<close>

definition date_value_text :: "string \<Rightarrow> bool" where
  "date_value_text v =
     (v \<noteq> [] \<and> length v \<le> 15 \<and> list_all (\<lambda>c. is_digit c \<or> c = CHR ''T'') v)"

text \<open>
  A text property as \<open>serializeEventToICS\<close> writes it: the name, a colon, the escaped
  value, folded.
\<close>

definition property_line :: "string \<Rightarrow> string \<Rightarrow> string" where
  "property_line name v = foldline (name @ '':'' @ escape_text v)"

text \<open>
  A line is misread when one of the expressions of \<open>parseICalEvent\<close> for the given
  property names matches somewhere inside it.
\<close>

definition misread :: "string list \<Rightarrow> string \<Rightarrow> bool" where
  "misread names line = list_ex (\<lambda>name. regex_first name line \<noteq> None) names"


text \<open>The first of the lines in which the expression for \<open>name\<close> matches, and its capture.\<close>

fun first_match :: "string \<Rightarrow> string list \<Rightarrow> string option" where
  "first_match name [] = None"
| "first_match name (l # ls) =
     (case regex_first name l of
        Some v \<Rightarrow> Some v
      | None \<Rightarrow> first_match name ls)"




text \<open>
  An environment in which the relay is unreachable and the store is empty and accepts
  every write, and a world in which nothing has happened yet.
\<close>

definition quiet_env :: env where
  "quiet_env =
     \<lparr>has_window = True,
      clock = (\<lambda>i. \<lparr>d_year = 2026, d_month = 10, d_date = 3, d_time = 0\<rparr>),
      ls_setItem_throws = (\<lambda>i. False),
      px_syncCollection = (\<lambda>i c. Inl ''offline''),
      px_fetchEvents = (\<lambda>i c. Inl ''offline''),
      px_getSyncToken = (\<lambda>i c. Inl ''offline''),
      db_select_caldav_events = (\<lambda>i c. \<lparr>resp_data = Some [], resp_error = None\<rparr>),
      db_delete_ids = (\<lambda>i c. None),
      db_exists_by_uid = (\<lambda>i c. \<lparr>resp_data = None, resp_error = None\<rparr>),
      db_fetch_by_uid = (\<lambda>i c. \<lparr>resp_data = None, resp_error = None\<rparr>),
      db_update_by_uid = (\<lambda>i c. None),
      db_find_by_details = (\<lambda>i c. \<lparr>resp_data = None, resp_error = None\<rparr>),
      db_update_uid = (\<lambda>i c. None),
      db_insert = (\<lambda>i c. Inr ''new-row''),
      db_event_exists = (\<lambda>i c. \<lparr>resp_data = None, resp_error = None\<rparr>)\<rparr>"

definition idle_world :: world where
  "idle_world = \<lparr>calls = [], syncInFlight = False, localStorage = Map.empty\<rparr>"

text \<open>Stored rows: with a UID of their own, and legacy rows without one.\<close>

definition uid_row :: "string \<Rightarrow> existing_row" where
  "uid_row n = \<lparr>ex_id = ''row-'' @ n, ex_caldav_uid = Some (''local-'' @ n),
                ex_title = ''Event '' @ n, ex_date = ''2024-05-01'',
                ex_start_time = None, ex_end_time = None\<rparr>"


definition standup :: remote_event where
  "standup = \<lparr>ev_title = ''Standup'', ev_date = ''2024-05-02'', ev_memo = None,
               ev_startTime = Some ''09:00'', ev_endTime = Some ''09:15'',
               ev_color = ''#3b82f6'', ev_uid = Some ''remote-1''\<rparr>"



definition env_rows :: "existing_row list \<Rightarrow> env" where
  "env_rows rows =
     quiet_env\<lparr>db_select_caldav_events := (\<lambda>i c. \<lparr>resp_data = Some rows, resp_error = None\<rparr>)\<rparr>"

text \<open>A configuration, a calendar URL as the user selected it, and the same normalized.\<close>

definition example_config :: CalDAVConfig where
  "example_config = \<lparr>serverUrl = ''https://caldav.example'', username = ''ann'',
                       password = ''secret''\<rparr>"

definition work_url :: string where
  "work_url = ''https://caldav.example/home/work/''"

definition work_calendar :: string where
  "work_calendar = ''https://caldav.example/home/work''"

text \<open>
  Environments for a pass over one calendar: the full fetch returns the one event
  \<open>standup\<close> (the store is empty, so it is created); the same with one stored row that
  the fetch no longer has (it is deleted); the incremental call reports deletions; the
  incremental call returns \<open>standup\<close> as a change; writing the tokens fails.
\<close>

definition env_full_fetch :: env where
  "env_full_fetch =
     quiet_env\<lparr>px_fetchEvents := (\<lambda>i c. Inr (Some [standup])),
               px_getSyncToken := (\<lambda>i c. Inr (Some ''token-2''))\<rparr>"

definition env_removed_remotely :: env where
  "env_removed_remotely =
     env_full_fetch\<lparr>db_select_caldav_events :=
                      (\<lambda>i c. \<lparr>resp_data = Some [uid_row ''01''], resp_error = None\<rparr>)\<rparr>"

definition env_sync_deletions :: env where
  "env_sync_deletions =
     env_full_fetch\<lparr>px_syncCollection :=
                      (\<lambda>i c. Inr (Some \<lparr>sc_events = Some [], sc_syncToken = Some ''token-2'',
                                          sc_hasDeletions = Some True\<rparr>))\<rparr>"

definition env_sync_changes :: env where
  "env_sync_changes =
     quiet_env\<lparr>px_syncCollection :=
                 (\<lambda>i c. Inr (Some \<lparr>sc_events = Some [standup], sc_syncToken = Some ''token-2'',
                                     sc_hasDeletions = None\<rparr>))\<rparr>"

definition env_storage_full :: env where
  "env_storage_full = quiet_env\<lparr>ls_setItem_throws := (\<lambda>i. True)\<rparr>"

definition pass_with_token :: pass_state where
  "pass_with_token = \<lparr>syncedCount = 0, skippedCount = 0, deletedCount = 0,
                        syncTokens = [work_calendar \<mapsto> ''token-1'']\<rparr>"

definition fresh_loop :: loop_state where
  "fresh_loop = \<lparr>currentEventUids = {}, calendarSyncedCount = 0, calendarSkippedCount = 0\<rparr>"

text \<open>
  The store already holds \<open>standup\<close> under its UID, equal in every field but the color:
  the row as \<open>fetchEventByUID\<close> and as the deletion check read it, the environment of
  one reconciliation, and the environment of a whole pass with a full fetch.
\<close>

definition stored_standup :: stored_event where
  "stored_standup =
     \<lparr>st_id = ''row-7'', st_title = ''Standup'', st_date = ''2024-05-02'', st_memo = None,
      st_start_time = Some ''09:00'', st_end_time = Some ''09:15'', st_color = ''#ef4444'',
      st_calendar_url = Some work_calendar, st_source = Some ''caldav''\<rparr>"

definition env_recolored :: env where
  "env_recolored =
     quiet_env\<lparr>db_exists_by_uid := (\<lambda>i c. \<lparr>resp_data = Some ''row-7'', resp_error = None\<rparr>),
               db_fetch_by_uid := (\<lambda>i c. \<lparr>resp_data = Some stored_standup, resp_error = None\<rparr>)\<rparr>"

definition stored_standup_row :: existing_row where
  "stored_standup_row =
     \<lparr>ex_id = ''row-7'', ex_caldav_uid = Some ''remote-1'', ex_title = ''Standup'',
      ex_date = ''2024-05-02'', ex_start_time = Some ''09:00'', ex_end_time = Some ''09:15''\<rparr>"

definition env_recolored_pass :: env where
  "env_recolored_pass =
     env_full_fetch
       \<lparr>db_exists_by_uid := (\<lambda>i c. \<lparr>resp_data = Some ''row-7'', resp_error = None\<rparr>),
        db_fetch_by_uid := (\<lambda>i c. \<lparr>resp_data = Some stored_standup, resp_error = None\<rparr>),
        db_select_caldav_events :=
          (\<lambda>i c. \<lparr>resp_data = Some [stored_standup_row], resp_error = None\<rparr>)\<rparr>"

text \<open>
  A CalDAV server that deletes the resource at the first request (204) and no longer
  finds it at the second (404), and one that rejects the precondition (412).
\<close>

definition server_deleting :: server where
  "server_deleting =
     \<lparr>http_fetch = (\<lambda>i request. Inr \<lparr>rs_status = (if i = 0 then 204 else 404)\<rparr>),
      btoa_latin1 = (\<lambda>str. ''YW5uOnNlY3JldA=='')\<rparr>"

definition server_rejecting :: server where
  "server_rejecting =
     \<lparr>http_fetch = (\<lambda>i request. Inr \<lparr>rs_status = 412\<rparr>),
      btoa_latin1 = (\<lambda>str. ''YW5uOnNlY3JldA=='')\<rparr>"

text \<open>
  Decoding what the encoder wrote, \<open>parseICalEvent(serializeEventToICS(event))\<close>, and the
  example inputs of the encoder: a host whose local zone is \<open>offset\<close> minutes east of
  UTC, the all-day event and the meeting of the encoder's own tests, and the meeting with
  its end time left out.
\<close>

definition decode_encode :: "platform \<Rightarrow> app_event \<Rightarrow> string \<Rightarrow> parsed_event option" where
  "decode_encode P event defaultColor =
     (case serializeEventToICS P event of
        None \<Rightarrow> None
      | Some text \<Rightarrow> parseICalEvent text defaultColor)"

definition host_at :: "int \<Rightarrow> platform" where
  "host_at offset =
     \<lparr>tz_offset = offset,
      now_date = \<lparr>c_year = 2024, c_month = 2, c_day = 1\<rparr>,
      now_time = (9, 30, 0),
      fresh_uid = ''vividly-1706779800000-k3j9x0q2a''\<rparr>"

definition all_day_event :: app_event where
  "all_day_event =
     \<lparr>e_title = Some ''All Day Event'', e_memo = None, e_caldavUid = None,
      e_date = Some ''2024-01-29'', e_startTime = None, e_endTime = None\<rparr>"

definition meeting :: app_event where
  "meeting =
     \<lparr>e_title = Some ''Meeting'', e_memo = None, e_caldavUid = Some ''uid-123'',
      e_date = Some ''2024-01-29'', e_startTime = Some ''10:00'', e_endTime = Some ''11:00''\<rparr>"




definition meeting_with_uid :: "string \<Rightarrow> app_event" where
  "meeting_with_uid uid = meeting\<lparr>e_caldavUid := Some uid\<rparr>"

definition meeting_titled :: "string \<Rightarrow> app_event" where
  "meeting_titled title = meeting\<lparr>e_title := Some title\<rparr>"

definition uid_ending_in_space :: string where
  "uid_ending_in_space = ''uid-123'' @ [CHR 0xA0]"

definition uid_of_72 :: string where
  "uid_of_72 = replicate 72 (CHR ''u'')"

section \<open>Properties of deleteRemovedEvents\<close>

lemma calls_emit [simp]: "calls (emit c w) = calls w @ [c]"
  by (simp add: emit_def)

lemma syncInFlight_emit [simp]: "syncInFlight (emit c w) = syncInFlight w"
  by (simp add: emit_def)

lemma localStorage_emit [simp]: "localStorage (emit c w) = localStorage w"
  by (simp add: emit_def)

lemma new_calls_same [simp]: "new_calls w w = []"
  by (simp add: new_calls_def)

lemma new_calls_emit [simp]: "new_calls w (emit c w) = [c]"
  by (simp add: new_calls_def)








text \<open>
  Claim C2.  When the fetched event list is empty and the set of seen UIDs is empty,
  \<open>deleteRemovedEvents\<close> returns 0 and leaves the world as it was: it sends no request
  to the store at all, whatever the store holds.
\<close>

theorem deleteRemovedEvents_empty_fetch:
  "deleteRemovedEvents E calendarUrl {} [] w = (0, w)"
  by (simp add: deleteRemovedEvents_def)

text \<open>With three rows in the store and a full fetch that returned nothing: no deletion.\<close>

theorem deleteRemovedEvents_empty_fetch_witness:
  "deleteRemovedEvents (env_rows (map uid_row [''01'', ''02'', ''03'']))
     ''https://caldav.example/home/work/'' {} [] idle_world = (0, idle_world)"
  using deleteRemovedEvents_empty_fetch
          [of "env_rows (map uid_row [''01'', ''02'', ''03''])"
              "''https://caldav.example/home/work/''" idle_world]
  by simp

section \<open>The accepted writes and the deleted rows of a pass\<close>

lemma tally_from_append:
  "tally_from f i (xs @ ys) = tally_from f i xs + tally_from f (i + length xs) ys"
  by (induction xs arbitrary: i) simp_all

lemma step_refl [simp]: "step E w w 0 0"
  by (simp add: step_def tally_def)

lemma step_trans:
  assumes "step E w w1 a b" and "step E w1 w2 c d"
  shows "step E w w2 (a + c) (b + d)"
proof -
  from assms obtain xs ys where xs: "calls w1 = calls w @ xs" and ys: "calls w2 = calls w1 @ ys"
    by (auto simp: step_def prefix_def)
  then have "new_calls w w2 = xs @ ys" "new_calls w w1 = xs" "new_calls w1 w2 = ys"
    by (simp_all add: new_calls_def)
  with assms xs ys show ?thesis
    by (simp add: step_def tally_def tally_from_append)
qed

lemma step_ask:
  "step E w (snd (ask oracle c w)) (accepted_writes E (length (calls w)) c)
     (deleted_rows E (length (calls w)) c)"
  by (simp add: step_def tally_def ask_def)

lemma step_flag: "step E (w\<lparr>syncInFlight := b\<rparr>) w' a d \<Longrightarrow> step E w (w'\<lparr>syncInFlight := syncInFlight w\<rparr>) a d"
  by (simp add: step_def tally_def new_calls_def)

lemma eventExistsByUID_step: "step E w (snd (eventExistsByUID E uid url w)) 0 0"
  by (simp add: eventExistsByUID_def ask_def step_def tally_def Let_def)

lemma fetchEventByUID_step: "step E w (snd (fetchEventByUID E uid url w)) 0 0"
  by (simp add: fetchEventByUID_def ask_def step_def tally_def Let_def)

lemma updateEventByUID_step:
  "step E w (snd (updateEventByUID E uid url updates w))
     (if fst (updateEventByUID E uid url updates w) then 1 else 0) 0"
  by (simp add: updateEventByUID_def ask_def step_def tally_def Let_def)

lemma findEventByDetails_step: "step E w (snd (findEventByDetails E event url w)) 0 0"
  by (simp add: findEventByDetails_def ask_def step_def tally_def Let_def)

lemma updateEventUID_step: "step E w (snd (updateEventUID E eventId uid url w)) 0 0"
  by (simp add: updateEventUID_def ask_def step_def tally_def Let_def)

lemma createEvent_step:
  "step E w (snd (createEvent E event eventUid url source w))
     (if fst (createEvent E event eventUid url source w) \<noteq> None then 1 else 0) 0"
  by (simp add: createEvent_def ask_def step_def tally_def Let_def split: prod.splits sum.splits)

lemma eventExists_step: "step E w (snd (eventExists E event url source w)) 0 0"
  by (simp add: eventExists_def ask_def step_def tally_def Let_def)

lemma fetchSyncCollection_step: "step E w (snd (fetchSyncCollection E config url token w)) 0 0"
  by (simp add: fetchSyncCollection_def ask_def step_def tally_def Let_def split: sum.splits option.splits)

lemma fetchCalendarEvents_step: "step E w (snd (fetchCalendarEvents E config url d1 d2 w)) 0 0"
  by (simp add: fetchCalendarEvents_def ask_def step_def tally_def Let_def split: sum.splits option.splits)

lemma fetchSyncToken_step: "step E w (snd (fetchSyncToken E config url w)) 0 0"
  by (simp add: fetchSyncToken_def ask_def step_def tally_def Let_def split: sum.splits option.splits)

lemma new_Date_step: "step E w (snd (new_Date E w)) 0 0"
  by (simp add: new_Date_def ask_def step_def tally_def Let_def)

lemma step_trans0: "step E w w1 0 0 \<Longrightarrow> step E w1 w2 c d \<Longrightarrow> step E w w2 c d"
  using step_trans [of E w w1 0 0 w2 c d] by simp

lemma process_event_step:
  "step E w (snd (process_event E url event (l, w)))
     (calendarSyncedCount (fst (process_event E url event (l, w))) - calendarSyncedCount l) 0
   \<and> calendarSyncedCount l \<le> calendarSyncedCount (fst (process_event E url event (l, w)))"
proof (cases "truthy (ev_uid event)")
  case True
  define uid where "uid = or_empty (ev_uid event)"
  define w1 where "w1 = snd (eventExistsByUID E uid url w)"
  have s1: "step E w w1 0 0" unfolding w1_def by (rule eventExistsByUID_step)
  show ?thesis
  proof (cases "fst (eventExistsByUID E uid url w)")
    case ex: True
    define w2 where "w2 = snd (fetchEventByUID E uid url w1)"
    have s2: "step E w w2 0 0" unfolding w2_def using s1 fetchEventByUID_step by (rule step_trans0)
    show ?thesis
    proof (cases "fst (fetchEventByUID E uid url w1)")
      case None
      with True ex s2 show ?thesis
        by (simp add: process_event_def uid_def w1_def w2_def skipped_def Let_def split_beta)
    next
      case (Some st)
      show ?thesis
      proof (cases "compute_updates st event = no_updates")
        case nu: True
        with True ex s2 Some show ?thesis
          by (simp add: process_event_def uid_def w1_def w2_def skipped_def Let_def split_beta)
      next
        case upd: False
        define w3 where "w3 = snd (updateEventByUID E uid url (compute_updates st event) w2)"
        have s3: "step E w w3 (if fst (updateEventByUID E uid url (compute_updates st event) w2) then 1 else 0) 0"
          unfolding w3_def using s2 updateEventByUID_step by (rule step_trans0)
        with True ex Some upd show ?thesis
          by (auto simp: process_event_def uid_def w1_def w2_def w3_def skipped_def synced_def Let_def split_beta split: if_splits)
      qed
    qed
  next
    case nex: False
    define w2 where "w2 = snd (findEventByDetails E event url w1)"
    have s2: "step E w w2 0 0" unfolding w2_def using s1 findEventByDetails_step by (rule step_trans0)
    show ?thesis
    proof (cases "fst (findEventByDetails E event url w1)")
      case (Some eid)
      have "step E w (snd (updateEventUID E eid uid url w2)) 0 0"
        using s2 updateEventUID_step by (rule step_trans0)
      with True nex Some show ?thesis
        by (auto simp: process_event_def uid_def w1_def w2_def skipped_def synced_def Let_def split_beta split: if_splits)
    next
      case None
      have "step E w (snd (createEvent E event (Some uid) url ''caldav'' w2))
              (if fst (createEvent E event (Some uid) url ''caldav'' w2) \<noteq> None then 1 else 0) 0"
        using s2 createEvent_step by (rule step_trans0)
      with True nex None show ?thesis
        by (auto simp: process_event_def uid_def w1_def w2_def skipped_def synced_def Let_def split_beta split: if_splits)
    qed
  qed
next
  case False
  define w1 where "w1 = snd (eventExists E event url ''caldav'' w)"
  have s1: "step E w w1 0 0" unfolding w1_def by (rule eventExists_step)
  show ?thesis
  proof (cases "fst (eventExists E event url ''caldav'' w)")
    case True
    with False s1 show ?thesis
      by (simp add: process_event_def w1_def skipped_def Let_def split_beta)
  next
    case nex: False
    have "step E w (snd (createEvent E event (ev_uid event) url ''caldav'' w1))
              (if fst (createEvent E event (ev_uid event) url ''caldav'' w1) \<noteq> None then 1 else 0) 0"
      using s1 createEvent_step by (rule step_trans0)
    with False nex show ?thesis
      by (auto simp: process_event_def w1_def skipped_def synced_def Let_def split_beta split: if_splits)
  qed
qed

lemma process_events_step:
  "step E w (snd (process_events E url evs (l, w)))
     (calendarSyncedCount (fst (process_events E url evs (l, w))) - calendarSyncedCount l) 0
   \<and> calendarSyncedCount l \<le> calendarSyncedCount (fst (process_events E url evs (l, w)))"
proof (induction evs arbitrary: l w)
  case Nil
  show ?case by simp
next
  case (Cons ev evs)
  obtain l1 w1 where pe: "process_event E url ev (l, w) = (l1, w1)"
    by (cases "process_event E url ev (l, w)")
  from process_event_step [of E w url ev l] pe
  have s1: "step E w w1 (calendarSyncedCount l1 - calendarSyncedCount l) 0"
    and m1: "calendarSyncedCount l \<le> calendarSyncedCount l1" by simp_all
  from Cons.IH [of w1 l1]
  have s2: "step E w1 (snd (process_events E url evs (l1, w1)))
              (calendarSyncedCount (fst (process_events E url evs (l1, w1))) - calendarSyncedCount l1) 0"
    and m2: "calendarSyncedCount l1 \<le> calendarSyncedCount (fst (process_events E url evs (l1, w1)))"
    by simp_all
  from step_trans [OF s1 s2] m1 m2 show ?case by (simp add: pe)
qed

lemma delete_batches_step:
  "step E w (snd (delete_batches E ids i n w)) 0 (fst (delete_batches E ids i n w) - n)
   \<and> n \<le> fst (delete_batches E ids i n w)"
proof (induction E ids i n w rule: delete_batches.induct)
  case (1 E ids i n w)
  show ?case
  proof (cases "i < length ids")
    case False
    then show ?thesis by (simp add: delete_batches.simps)
  next
    case True
    define batch where "batch = take 50 (drop i ids)"
    define w' where "w' = emit (DbDeleteIds batch) w"
    define err where "err = db_delete_ids E (length (calls w)) (DbDeleteIds batch)"
    have a: "ask (db_delete_ids E) (DbDeleteIds batch) w = (err, w')"
      by (simp add: ask_def err_def w'_def)
    have s1: "step E w w' 0 (if err = None then length batch else 0)"
      by (simp add: step_def tally_def w'_def err_def)
    show ?thesis
    proof (cases "err = None")
      case ok: True
      from "1.IH"(2) [OF True batch_def refl a [symmetric]] ok
      have s2: "step E w' (snd (delete_batches E ids (i + 50) (n + length batch) w')) 0
                  (fst (delete_batches E ids (i + 50) (n + length batch) w') - (n + length batch))"
        and m: "n + length batch \<le> fst (delete_batches E ids (i + 50) (n + length batch) w')"
        by simp_all
      have eq: "delete_batches E ids i n w = delete_batches E ids (i + 50) (n + length batch) w'"
        using True ok a by (subst delete_batches.simps) (simp add: batch_def [symmetric])
      from step_trans [OF s1 s2] ok m show ?thesis by (simp add: eq)
    next
      case bad: False
      from "1.IH"(1) [OF True batch_def refl a [symmetric]] bad
      have s2: "step E w' (snd (delete_batches E ids (i + 50) n w')) 0
                  (fst (delete_batches E ids (i + 50) n w') - n)"
        and m: "n \<le> fst (delete_batches E ids (i + 50) n w')"
        by simp_all
      have eq: "delete_batches E ids i n w = delete_batches E ids (i + 50) n w'"
        using True bad a by (subst delete_batches.simps) (simp add: batch_def [symmetric])
      from step_trans [OF s1 s2] bad m show ?thesis by (simp add: eq)
    qed
  qed
qed

lemma deleteRemovedEvents_step:
  "step E w (snd (deleteRemovedEvents E url uids evs w)) 0 (fst (deleteRemovedEvents E url uids evs w))"
proof -
  define w1 where "w1 = emit (DbSelectCaldavEvents (calendar_url_variants url)) w"
  have s1: "step E w w1 0 0" by (simp add: step_def tally_def w1_def)
  have s2: "step E w (snd (delete_batches E ids 0 0 w1)) 0 (fst (delete_batches E ids 0 0 w1))" for ids
    using step_trans [OF s1, of "snd (delete_batches E ids 0 0 w1)" 0 "fst (delete_batches E ids 0 0 w1)"]
      delete_batches_step [of E w1 ids 0 0] by simp
  show ?thesis
    using s1 s2
    by (simp add: deleteRemovedEvents_def ask_def Let_def w1_def split: option.splits)
qed

lemma select_strategy_step: "step E w (snd (select_strategy E config url token w)) 0 0"
  using fetchSyncCollection_step [of E w config url "or_empty token"]
  by (cases "fetchSyncCollection E config url (or_empty token) w")
     (auto simp: select_strategy_def Let_def split: sum.splits option.splits)

lemma events_to_process_step: "step E w (snd (events_to_process E config url syncResult w)) 0 0"
proof (cases syncResult)
  case (Some res)
  then show ?thesis by (simp add: events_to_process_def)
next
  case None
  define w1 where "w1 = snd (new_Date E w)"
  define w2 where "w2 = snd (new_Date E w1)"
  define d1 where "d1 = setFullYear (fst (new_Date E w)) (d_year (fst (new_Date E w)) - 1)"
  define d2 where "d2 = setFullYear (fst (new_Date E w1)) (d_year (fst (new_Date E w1)) + 1)"
  have "step E w w1 0 0" unfolding w1_def by (rule new_Date_step)
  moreover have "step E w1 w2 0 0" unfolding w2_def by (rule new_Date_step)
  ultimately have "step E w w2 0 0" by (rule step_trans0)
  then have "step E w (snd (fetchCalendarEvents E config url d1 d2 w2)) 0 0"
    using fetchCalendarEvents_step by (rule step_trans0)
  with None show ?thesis
    by (simp add: events_to_process_def Let_def split_beta w1_def w2_def d1_def d2_def
             split: sum.splits)
qed

lemma persist_token_step:
  "step E w (snd (persist_token E config url syncResult full tokens w)) 0 0"
  using fetchSyncToken_step [of E w config url]
  by (simp add: persist_token_def Let_def split_beta)

lemma sync_calendar_step:
  "step E w (snd (sync_calendar E config url (p, w)))
     (syncedCount (fst (sync_calendar E config url (p, w))) - syncedCount p)
     (deletedCount (fst (sync_calendar E config url (p, w))) - deletedCount p)
   \<and> syncedCount p \<le> syncedCount (fst (sync_calendar E config url (p, w)))
   \<and> deletedCount p \<le> deletedCount (fst (sync_calendar E config url (p, w)))"
proof -
  define cu where "cu = normalizeCalendarUrl url"
  define sr where "sr = fst (select_strategy E config cu (syncTokens p cu) w)"
  define w1 where "w1 = snd (select_strategy E config cu (syncTokens p cu) w)"
  define w2 where "w2 = snd (events_to_process E config cu sr w1)"
  have s1: "step E w w1 0 0" unfolding w1_def by (rule select_strategy_step)
  have s2: "step E w w2 0 0" unfolding w2_def using s1 events_to_process_step by (rule step_trans0)
  show ?thesis
  proof (cases "fst (events_to_process E config cu sr w1)")
    case (Inl err)
    with s2 show ?thesis
      by (simp add: sync_calendar_def Let_def split_beta cu_def sr_def w1_def w2_def)
  next
    case (Inr ef)
    obtain evs full where ef: "ef = (evs, full)" by (cases ef)
    define l0 where "l0 = \<lparr>currentEventUids = {}, calendarSyncedCount = 0, calendarSkippedCount = 0\<rparr>"
    define l where "l = fst (process_events E cu evs (l0, w2))"
    define w3 where "w3 = snd (process_events E cu evs (l0, w2))"
    define dw where "dw = (if full then deleteRemovedEvents E cu (currentEventUids l) evs w3 else (0, w3))"
    define w4 where "w4 = snd dw"
    define w5 where "w5 = snd (persist_token E config cu sr full (syncTokens p) w4)"
    have s3: "step E w2 w3 (calendarSyncedCount l) 0"
      using process_events_step [of E w2 cu evs l0] by (simp add: l_def w3_def l0_def)
    have s4: "step E w3 w4 0 (fst dw)"
      using deleteRemovedEvents_step [of E w3 cu "currentEventUids l" evs]
      by (simp add: w4_def dw_def)
    have s5: "step E w4 w5 0 0" unfolding w5_def by (rule persist_token_step)
    from step_trans [OF step_trans [OF step_trans [OF s2 s3] s4] s5]
    have "step E w w5 (calendarSyncedCount l) (fst dw)" by simp
    moreover have "sync_calendar E config url (p, w) =
        (p\<lparr>syncedCount := syncedCount p + calendarSyncedCount l,
           skippedCount := skippedCount p + calendarSkippedCount l,
           deletedCount := deletedCount p + fst dw,
           syncTokens := fst (persist_token E config cu sr full (syncTokens p) w4)\<rparr>, w5)"
      using Inr ef
      by (cases full)
         (simp_all add: sync_calendar_def Let_def split_beta cu_def sr_def w1_def w2_def l0_def
            l_def w3_def dw_def w4_def w5_def)
    ultimately show ?thesis by simp
  qed
qed

lemma sync_calendars_step:
  "step E w (snd (sync_calendars E config urls (p, w)))
     (syncedCount (fst (sync_calendars E config urls (p, w))) - syncedCount p)
     (deletedCount (fst (sync_calendars E config urls (p, w))) - deletedCount p)
   \<and> syncedCount p \<le> syncedCount (fst (sync_calendars E config urls (p, w)))
   \<and> deletedCount p \<le> deletedCount (fst (sync_calendars E config urls (p, w)))"
proof (induction urls arbitrary: p w)
  case Nil
  show ?case by simp
next
  case (Cons url urls)
  obtain p1 w1 where sc: "sync_calendar E config url (p, w) = (p1, w1)"
    by (cases "sync_calendar E config url (p, w)")
  from sync_calendar_step [of E w config url p] sc
  have s1: "step E w w1 (syncedCount p1 - syncedCount p) (deletedCount p1 - deletedCount p)"
    and m1: "syncedCount p \<le> syncedCount p1" "deletedCount p \<le> deletedCount p1"
    by simp_all
  let ?r = "sync_calendars E config urls (p1, w1)"
  from Cons.IH [of w1 p1]
  have s2: "step E w1 (snd ?r) (syncedCount (fst ?r) - syncedCount p1)
              (deletedCount (fst ?r) - deletedCount p1)"
    and m2: "syncedCount p1 \<le> syncedCount (fst ?r)" "deletedCount p1 \<le> deletedCount (fst ?r)"
    by simp_all
  from step_trans [OF s1 s2] m1 m2 show ?case by (simp add: sc)
qed

lemma tally_flag [simp]:
  "tally f (w\<lparr>syncInFlight := b\<rparr>) w' = tally f w w'"
  "tally f w (w'\<lparr>syncInFlight := b\<rparr>) = tally f w w'"
  "tally f w (w'\<lparr>localStorage := m\<rparr>) = tally f w w'"
  by (simp_all add: tally_def new_calls_def)

lemma sync_pass_result:
  assumes "sync_pass E config urls w = (Inr v, w')"
  shows "v = (if 0 < tally (deleted_rows E) w w' then - 1
              else int (tally (accepted_writes E) w w'))"
proof -
  define p0 where "p0 = \<lparr>syncedCount = 0, skippedCount = 0, deletedCount = 0,
                 syncTokens = readSyncTokens E config w\<rparr>"
  define p where "p = fst (sync_calendars E config urls (p0, w))"
  define w1 where "w1 = snd (sync_calendars E config urls (p0, w))"
  from sync_calendars_step [of E w config urls p0]
  have s: "tally (accepted_writes E) w w1 = syncedCount p" "tally (deleted_rows E) w w1 = deletedCount p"
    by (simp_all add: step_def p_def w1_def p0_def)
  have calls: "calls w' = calls w1"
    using assms
    by (auto simp: sync_pass_def Let_def split_beta writeSyncTokens_def p0_def [symmetric]
          p_def [symmetric] w1_def [symmetric] split: if_splits sum.splits)
  then have t: "tally f w w' = tally f w w1" for f by (simp add: tally_def new_calls_def)
  from assms show ?thesis
    by (auto simp: t s sync_pass_def Let_def split_beta p0_def [symmetric]
          p_def [symmetric] w1_def [symmetric] split: if_splits sum.splits)
qed

section \<open>The log of one calendar's pass\<close>

lemma only_refl [simp]: "only P w w"
  by (simp add: only_def)

lemma only_trans: "only P w w1 \<Longrightarrow> only P w1 w2 \<Longrightarrow> only P w w2"
  by (auto simp: only_def prefix_def new_calls_def)

lemma only_emit: "P c \<Longrightarrow> only P w (emit c w)"
  by (simp add: only_def)

lemma eventExistsByUID_only: "only reconciling w (snd (eventExistsByUID E uid url w))"
  by (simp add: eventExistsByUID_def ask_def Let_def only_emit reconciling_def)

lemma fetchEventByUID_only: "only reconciling w (snd (fetchEventByUID E uid url w))"
  by (simp add: fetchEventByUID_def ask_def Let_def only_emit reconciling_def)

lemma updateEventByUID_only: "only reconciling w (snd (updateEventByUID E uid url updates w))"
  by (simp add: updateEventByUID_def ask_def Let_def only_emit reconciling_def)

lemma findEventByDetails_only: "only reconciling w (snd (findEventByDetails E event url w))"
  by (simp add: findEventByDetails_def ask_def Let_def only_emit reconciling_def)

lemma updateEventUID_only: "only reconciling w (snd (updateEventUID E eventId uid url w))"
  by (simp add: updateEventUID_def ask_def Let_def only_emit reconciling_def)

lemma createEvent_only: "only reconciling w (snd (createEvent E event eventUid url source w))"
  by (simp add: createEvent_def ask_def Let_def only_emit reconciling_def split: sum.splits)

lemma eventExists_only: "only reconciling w (snd (eventExists E event url source w))"
  by (simp add: eventExists_def ask_def Let_def only_emit reconciling_def)

lemma process_event_only: "only reconciling w (snd (process_event E url event (l, w)))"
proof -
  note t = only_trans [of reconciling]
  have a: "only reconciling w (snd (fetchEventByUID E uid url (snd (eventExistsByUID E uid url w))))" for uid
    by (rule t [OF eventExistsByUID_only fetchEventByUID_only])
  have b: "only reconciling w (snd (updateEventByUID E uid url u
             (snd (fetchEventByUID E uid url (snd (eventExistsByUID E uid url w))))))" for uid u
    by (rule t [OF a updateEventByUID_only])
  have c: "only reconciling w (snd (findEventByDetails E event url (snd (eventExistsByUID E uid url w))))" for uid
    by (rule t [OF eventExistsByUID_only findEventByDetails_only])
  have d: "only reconciling w (snd (updateEventUID E eid uid url
             (snd (findEventByDetails E event url (snd (eventExistsByUID E uid url w))))))" for uid eid
    by (rule t [OF c updateEventUID_only])
  have e: "only reconciling w (snd (createEvent E event x url src
             (snd (findEventByDetails E event url (snd (eventExistsByUID E uid url w))))))" for uid x src
    by (rule t [OF c createEvent_only])
  have f: "only reconciling w (snd (createEvent E event x url src (snd (eventExists E event url src' w))))"
    for x src src'
    by (rule t [OF eventExists_only createEvent_only])
  show ?thesis
    by (simp add: process_event_def Let_def split_beta a b d e f eventExists_only
          split: option.splits)
qed

lemma process_events_only: "only reconciling w (snd (process_events E url evs (l, w)))"
proof (induction evs arbitrary: l w)
  case Nil
  show ?case by simp
next
  case (Cons ev evs)
  obtain l1 w1 where pe: "process_event E url ev (l, w) = (l1, w1)"
    by (cases "process_event E url ev (l, w)")
  from process_event_only [of w E url ev l] pe have "only reconciling w w1" by simp
  from only_trans [OF this Cons.IH [of w1 l1]] show ?case by (simp add: pe)
qed

lemma select_strategy_world:
  "snd (select_strategy E config url token w)
     = (if truthy token then emit (PxSyncCollection config url (or_empty token)) w else w)"
  by (simp add: select_strategy_def fetchSyncCollection_def ask_def Let_def
        split: sum.splits option.splits)

lemma select_strategy_none:
  "fst (select_strategy E config url token w) = None \<longleftrightarrow>
     (\<not> truthy token \<or>
      (\<exists>err. px_syncCollection E (length (calls w)) (PxSyncCollection config url (or_empty token)) = Inl err) \<or>
      (\<exists>d. px_syncCollection E (length (calls w)) (PxSyncCollection config url (or_empty token)) = Inr (Some d)
           \<and> sc_hasDeletions d = Some True))"
  by (auto simp: select_strategy_def fetchSyncCollection_def ask_def Let_def
        split: sum.splits option.splits)

lemma events_to_process_full:
  "calls (snd (events_to_process E config url None w)) =
     calls w @ [ClockNow, ClockNow,
       PxFetchEvents config url
         (setFullYear (clock E (length (calls w))) (d_year (clock E (length (calls w))) - 1))
         (setFullYear (clock E (length (calls w) + 1)) (d_year (clock E (length (calls w) + 1)) + 1))]"
  by (simp add: events_to_process_def new_Date_def fetchCalendarEvents_def ask_def Let_def
        split_beta split: sum.splits option.splits)

lemma events_to_process_incremental:
  "events_to_process E config url (Some res) w = (Inr (events res, False), w)"
  by (simp add: events_to_process_def)

lemma persist_token_incremental:
  "snd (persist_token E config url syncResult False tokens w) = w"
  by (simp add: persist_token_def Let_def)

lemma step_prefix: "step E w w' a b \<Longrightarrow> prefix (calls w) (calls w')"
  by (simp add: step_def)

lemma sync_calendar_after_fetch:
  "prefix (calls (snd (events_to_process E config (normalizeCalendarUrl url)
              (fst (select_strategy E config (normalizeCalendarUrl url)
                      (syncTokens p (normalizeCalendarUrl url)) w))
              (snd (select_strategy E config (normalizeCalendarUrl url)
                      (syncTokens p (normalizeCalendarUrl url)) w)))))
     (calls (snd (sync_calendar E config url (p, w))))"
proof -
  define cu where "cu = normalizeCalendarUrl url"
  define sr where "sr = fst (select_strategy E config cu (syncTokens p cu) w)"
  define w1 where "w1 = snd (select_strategy E config cu (syncTokens p cu) w)"
  define w2 where "w2 = snd (events_to_process E config cu sr w1)"
  have "prefix (calls w2) (calls (snd (sync_calendar E config url (p, w))))"
  proof (cases "fst (events_to_process E config cu sr w1)")
    case (Inl err)
    then show ?thesis
      by (simp add: sync_calendar_def Let_def split_beta cu_def sr_def w1_def w2_def)
  next
    case (Inr ef)
    obtain evs full where ef: "ef = (evs, full)" by (cases ef)
    define l0 where "l0 = \<lparr>currentEventUids = {}, calendarSyncedCount = 0, calendarSkippedCount = 0\<rparr>"
    define l where "l = fst (process_events E cu evs (l0, w2))"
    define w3 where "w3 = snd (process_events E cu evs (l0, w2))"
    define dw where "dw = (if full then deleteRemovedEvents E cu (currentEventUids l) evs w3 else (0, w3))"
    define w4 where "w4 = snd dw"
    define w5 where "w5 = snd (persist_token E config cu sr full (syncTokens p) w4)"
    have s3: "prefix (calls w2) (calls w3)"
      using process_events_step [of E w2 cu evs l0] by (simp add: w3_def step_def)
    have s4: "prefix (calls w3) (calls w4)"
      using deleteRemovedEvents_step [of E w3 cu "currentEventUids l" evs]
      by (simp add: w4_def dw_def step_def)
    have s5: "prefix (calls w4) (calls w5)"
      unfolding w5_def using persist_token_step by (rule step_prefix)
    have "snd (sync_calendar E config url (p, w)) = w5"
      using Inr ef
      by (cases full)
         (simp_all add: sync_calendar_def Let_def split_beta cu_def sr_def w1_def w2_def l0_def
            l_def w3_def dw_def w4_def w5_def)
    with s3 s4 s5 show ?thesis by (metis prefix_order.trans)
  qed
  then show ?thesis by (simp add: cu_def sr_def w1_def w2_def)
qed

lemma sync_calendar_incremental:
  assumes "fst (select_strategy E config (normalizeCalendarUrl url)
                  (syncTokens p (normalizeCalendarUrl url)) w) = Some res"
  shows "only reconciling
           (snd (select_strategy E config (normalizeCalendarUrl url)
                  (syncTokens p (normalizeCalendarUrl url)) w))
           (snd (sync_calendar E config url (p, w)))"
proof -
  define cu where "cu = normalizeCalendarUrl url"
  define w1 where "w1 = snd (select_strategy E config cu (syncTokens p cu) w)"
  define l0 where "l0 = \<lparr>currentEventUids = {}, calendarSyncedCount = 0, calendarSkippedCount = 0\<rparr>"
  have "snd (sync_calendar E config url (p, w)) = snd (process_events E cu (events res) (l0, w1))"
    using assms
    by (simp add: sync_calendar_def Let_def split_beta cu_def w1_def l0_def
          events_to_process_incremental persist_token_incremental)
  then show ?thesis
    using process_events_only [of w1 E cu "events res" l0] by (simp add: cu_def w1_def)
qed

section \<open>Strategy selection and deletion detection\<close>

text \<open>
  Claim C3.  In the pass over one calendar, let \<open>token\<close> be the stored sync token of the
  normalized calendar URL, \<open>request\<close> the incremental \<open>syncCollection\<close> call with it,
  \<open>answer\<close> what the relay answers to it, and \<open>cs\<close> the calls that the pass makes.
  (1) If a token is stored (a value that JavaScript takes as true), the first call of the
  pass is \<open>request\<close>.  (2) If no token is stored, or the call throws, or its result has
  \<open>hasDeletions\<close>, the pass makes the full fetch, from the current date with the year
  before to the current date with the year after.  (3) Otherwise, with an incremental
  result in use, the pass makes neither a full fetch nor any request of deletion
  detection.  (4) So a request of deletion detection occurs only in a pass with a full
  fetch.
\<close>

theorem sync_calendar_strategy:
  assumes cu: "calendarUrl = normalizeCalendarUrl rawCalendarUrl"
    and tok: "token = syncTokens p calendarUrl"
    and req: "request = PxSyncCollection config calendarUrl (or_empty token)"
    and ans: "answer = px_syncCollection E (length (calls w)) request"
    and cs: "cs = new_calls w (snd (sync_calendar E config rawCalendarUrl (p, w)))"
    and k: "k = length (calls w) + (if truthy token then 1 else 0)"
  shows "(truthy token \<longrightarrow> take 1 cs = [request])
       \<and> (\<not> truthy token \<or> (\<exists>err. answer = Inl err) \<or>
            (\<exists>d. answer = Inr (Some d) \<and> sc_hasDeletions d = Some True)
          \<longrightarrow> PxFetchEvents config calendarUrl
                  (setFullYear (clock E k) (d_year (clock E k) - 1))
                  (setFullYear (clock E (k + 1)) (d_year (clock E (k + 1)) + 1)) \<in> set cs)
       \<and> (\<not> (\<not> truthy token \<or> (\<exists>err. answer = Inl err) \<or>
               (\<exists>d. answer = Inr (Some d) \<and> sc_hasDeletions d = Some True))
          \<longrightarrow> list_all reconciling (drop 1 cs))
       \<and> (list_ex is_deletion_check cs \<longrightarrow> list_ex is_full_fetch cs)"
proof -
  define sr where "sr = fst (select_strategy E config calendarUrl token w)"
  define w1 where "w1 = snd (select_strategy E config calendarUrl token w)"
  define w' where "w' = snd (sync_calendar E config rawCalendarUrl (p, w))"
  let ?fallback = "\<not> truthy token \<or> (\<exists>err. answer = Inl err) \<or>
            (\<exists>d. answer = Inr (Some d) \<and> sc_hasDeletions d = Some True)"
  let ?fetch = "PxFetchEvents config calendarUrl
                  (setFullYear (clock E k) (d_year (clock E k) - 1))
                  (setFullYear (clock E (k + 1)) (d_year (clock E (k + 1)) + 1))"
  have w1: "calls w1 = calls w @ (if truthy token then [request] else [])"
    by (simp add: w1_def select_strategy_world req)
  have none: "sr = None \<longleftrightarrow> ?fallback"
    unfolding sr_def ans req by (rule select_strategy_none)
  have pre: "prefix (calls (snd (events_to_process E config calendarUrl sr w1))) (calls w')"
    unfolding sr_def w1_def w'_def cu tok by (rule sync_calendar_after_fetch)
  have pre1: "prefix (calls w1) (calls w')"
    using pre events_to_process_step [of E w1 config calendarUrl sr]
    by (metis prefix_order.trans step_prefix)
  then obtain tail where tail: "calls w' = calls w1 @ tail" by (auto simp: prefix_def)
  have cs': "cs = (if truthy token then [request] else []) @ tail"
    by (simp add: cs w'_def [symmetric] new_calls_def tail w1)
  have first: "truthy token \<longrightarrow> take 1 cs = [request]"
    by (simp add: cs')
  have full: "?fetch \<in> set cs" if "?fallback"
  proof -
    from that none have "sr = None" by simp
    with pre obtain rest where
      "calls w' = calls w1 @ [ClockNow, ClockNow,
         PxFetchEvents config calendarUrl
           (setFullYear (clock E (length (calls w1))) (d_year (clock E (length (calls w1))) - 1))
           (setFullYear (clock E (length (calls w1) + 1))
              (d_year (clock E (length (calls w1) + 1)) + 1))] @ rest"
      by (auto simp: events_to_process_full prefix_def)
    moreover have "length (calls w1) = k" by (simp add: w1 k)
    ultimately show ?thesis by (simp add: cs w'_def [symmetric] new_calls_def w1)
  qed
  have incr: "list_all reconciling (drop 1 cs)" if "\<not> ?fallback"
  proof -
    from that none obtain res where res: "sr = Some res" by auto
    from that have t: "truthy token" by simp
    from res have "only reconciling w1 w'"
      unfolding sr_def w1_def w'_def cu tok by (rule sync_calendar_incremental)
    then have "list_all reconciling tail" by (simp add: only_def new_calls_def tail)
    with t show ?thesis by (simp add: cs')
  qed
  have det: "list_ex is_full_fetch cs" if "list_ex is_deletion_check cs"
  proof (cases ?fallback)
    case True
    have "is_full_fetch ?fetch" by simp
    with full [OF True] show ?thesis unfolding list_ex_iff by blast
  next
    case False
    from incr [OF False] have "\<forall>c\<in>set (drop 1 cs). \<not> is_deletion_check c"
      by (simp add: list_all_iff reconciling_def)
    moreover have "\<not> is_deletion_check request" by (simp add: req)
    moreover from False have "truthy token" by simp
    then have "set cs = insert request (set (drop 1 cs))" by (simp add: cs')
    ultimately have "\<not> list_ex is_deletion_check cs" by (simp add: list_ex_iff)
    with that show ?thesis by simp
  qed
  have c2: "?fallback \<longrightarrow> ?fetch \<in> set cs" using full by (rule impI)
  have c3: "\<not> ?fallback \<longrightarrow> list_all reconciling (drop 1 cs)" using incr by (rule impI)
  have c4: "list_ex is_deletion_check cs \<longrightarrow> list_ex is_full_fetch cs" using det by (rule impI)
  from first c2 c3 c4 show ?thesis by (intro conjI)
qed

text \<open>
  A stored token and an incremental answer that reports deletions: the pass asks for the
  changes, falls back to the full fetch from 2025 to 2027 and runs deletion detection.
  With an answer that reports changes only, all further calls reconcile events.
\<close>

theorem sync_calendar_strategy_witness:
  "take 1 (new_calls idle_world
        (snd (sync_calendar env_sync_deletions example_config work_url (pass_with_token, idle_world))))
     = [PxSyncCollection example_config work_calendar ''token-1'']
   \<and> PxFetchEvents example_config work_calendar
        \<lparr>d_year = 2025, d_month = 10, d_date = 3, d_time = 0\<rparr>
        \<lparr>d_year = 2027, d_month = 10, d_date = 3, d_time = 0\<rparr>
      \<in> set (new_calls idle_world
        (snd (sync_calendar env_sync_deletions example_config work_url (pass_with_token, idle_world))))
   \<and> list_ex is_deletion_check (new_calls idle_world
        (snd (sync_calendar env_sync_deletions example_config work_url (pass_with_token, idle_world))))
   \<and> list_ex is_full_fetch (new_calls idle_world
        (snd (sync_calendar env_sync_deletions example_config work_url (pass_with_token, idle_world))))
   \<and> list_all reconciling (drop 1 (new_calls idle_world
        (snd (sync_calendar env_sync_changes example_config work_url (pass_with_token, idle_world)))))"
proof -
  let ?cs = "\<lambda>E. new_calls idle_world
               (snd (sync_calendar E example_config work_url (pass_with_token, idle_world)))"
  let ?req = "PxSyncCollection example_config work_calendar ''token-1''"
  have cu: "work_calendar = normalizeCalendarUrl work_url" by code_simp
  have tok: "Some ''token-1'' = syncTokens pass_with_token work_calendar"
    by (simp add: pass_with_token_def)
  have req: "?req = PxSyncCollection example_config work_calendar (or_empty (Some ''token-1''))"
    by simp
  have k: "1 = length (calls idle_world) + (if truthy (Some ''token-1'') then 1 else 0)"
    by (simp add: idle_world_def)
  have t: "truthy (Some ''token-1'')" by simp
  have del: "\<exists>d. px_syncCollection env_sync_deletions (length (calls idle_world)) ?req = Inr (Some d)
                \<and> sc_hasDeletions d = Some True"
    by (simp add: env_sync_deletions_def env_full_fetch_def quiet_env_def)
  have chg: "\<not> (\<not> truthy (Some ''token-1'') \<or>
               (\<exists>err. px_syncCollection env_sync_changes (length (calls idle_world)) ?req = Inl err) \<or>
               (\<exists>d. px_syncCollection env_sync_changes (length (calls idle_world)) ?req = Inr (Some d)
                    \<and> sc_hasDeletions d = Some True))"
    by (simp add: env_sync_changes_def quiet_env_def)
  have chk: "list_ex is_deletion_check (?cs env_sync_deletions)" by code_simp
  have clk: "setFullYear (clock env_sync_deletions 1) (d_year (clock env_sync_deletions 1) - 1)
               = \<lparr>d_year = 2025, d_month = 10, d_date = 3, d_time = 0\<rparr>"
            "setFullYear (clock env_sync_deletions (1 + 1)) (d_year (clock env_sync_deletions (1 + 1)) + 1)
               = \<lparr>d_year = 2027, d_month = 10, d_date = 3, d_time = 0\<rparr>"
    by (simp_all add: env_sync_deletions_def env_full_fetch_def quiet_env_def setFullYear_def)
  from sync_calendar_strategy [OF cu tok req refl refl k, of env_sync_deletions] t del chk
  have "take 1 (?cs env_sync_deletions) = [?req]"
    and "PxFetchEvents example_config work_calendar
          (setFullYear (clock env_sync_deletions 1) (d_year (clock env_sync_deletions 1) - 1))
          (setFullYear (clock env_sync_deletions (1 + 1)) (d_year (clock env_sync_deletions (1 + 1)) + 1))
         \<in> set (?cs env_sync_deletions)"
    and "list_ex is_full_fetch (?cs env_sync_deletions)"
    by blast+
  moreover from sync_calendar_strategy [OF cu tok req refl refl k, of env_sync_changes] chg
  have "list_all reconciling (drop 1 (?cs env_sync_changes))" by blast
  ultimately show ?thesis using chk by (simp only: clk)
qed

section \<open>The guard and the result of syncSelectedCalendars\<close>

text \<open>
  Claim C4.  A call of \<open>syncSelectedCalendars\<close> that starts while the flag
  \<open>syncInFlight\<close> is set, that is while another call is in flight, returns 0 at once and
  leaves the world as it is: no request to the store or to the relay, no read of the
  clock, no write to the local storage, and no exception.
\<close>

theorem syncSelectedCalendars_overlapping_call: "syncInFlight w \<Longrightarrow> syncSelectedCalendars E config selectedCalendarUrls w = (Inr 0, w)"
  by (simp add: syncSelectedCalendars_def)

theorem syncSelectedCalendars_overlapping_call_witness:
  "syncSelectedCalendars env_full_fetch example_config [work_url] (idle_world\<lparr>syncInFlight := True\<rparr>)
     = (Inr 0, idle_world\<lparr>syncInFlight := True\<rparr>)"
  using syncSelectedCalendars_overlapping_call [of "idle_world\<lparr>syncInFlight := True\<rparr>" env_full_fetch example_config "[work_url]"]
  by simp

text \<open>
  The value \<open>v\<close> that \<open>syncSelectedCalendars\<close> returns, in terms of the requests that
  the store accepted: if the calls deleted no row, \<open>v\<close> is the number of accepted
  inserts and accepted updates by UID, over all calendars; if they deleted a row, \<open>v\<close>
  is \<open>-1\<close>, which is the count \<open>n\<close> of nothing.
\<close>

lemma syncSelectedCalendars_result:
  assumes "syncSelectedCalendars E config selectedCalendarUrls w = (Inr v, w')"
  shows "(tally (deleted_rows E) w w' = 0 \<longrightarrow> v = int (tally (accepted_writes E) w w'))
       \<and> (0 < tally (deleted_rows E) w w' \<longrightarrow> v = - 1 \<and> v \<noteq> int n)"
proof (cases "syncInFlight w")
  case True
  with assms show ?thesis by (auto simp: syncSelectedCalendars_def tally_def)
next
  case False
  obtain r w1 where sp: "sync_pass E config selectedCalendarUrls (w\<lparr>syncInFlight := True\<rparr>) = (r, w1)"
    by (cases "sync_pass E config selectedCalendarUrls (w\<lparr>syncInFlight := True\<rparr>)")
  with assms False have r: "r = Inr v" and w': "w' = w1\<lparr>syncInFlight := False\<rparr>"
    by (simp_all add: syncSelectedCalendars_def)
  from sync_pass_result [of E config selectedCalendarUrls "w\<lparr>syncInFlight := True\<rparr>" v w1] sp r
  show ?thesis by (simp add: w')
qed

text \<open>
  A pass that creates one event and deletes nothing returns 1; a pass that also deletes a
  stored row that the server no longer has returns \<open>-1\<close>.
\<close>

lemma syncSelectedCalendars_result_examples:
  "fst (syncSelectedCalendars env_full_fetch example_config [work_url] idle_world) = Inr 1
   \<and> tally (deleted_rows env_full_fetch) idle_world
        (snd (syncSelectedCalendars env_full_fetch example_config [work_url] idle_world)) = 0
   \<and> int (tally (accepted_writes env_full_fetch) idle_world
        (snd (syncSelectedCalendars env_full_fetch example_config [work_url] idle_world))) = 1
   \<and> fst (syncSelectedCalendars env_removed_remotely example_config [work_url] idle_world)
        = Inr (- 1)
   \<and> 0 < tally (deleted_rows env_removed_remotely) idle_world
        (snd (syncSelectedCalendars env_removed_remotely example_config [work_url] idle_world))
   \<and> - 1 \<noteq> int (tally (accepted_writes env_removed_remotely) idle_world
        (snd (syncSelectedCalendars env_removed_remotely example_config [work_url] idle_world)))"
proof -
  let ?run = "\<lambda>E. syncSelectedCalendars E example_config [work_url] idle_world"
  have r1: "fst (?run env_full_fetch) = Inr 1" by code_simp
  have d1: "tally (deleted_rows env_full_fetch) idle_world (snd (?run env_full_fetch)) = 0"
    by code_simp
  have r2: "fst (?run env_removed_remotely) = Inr (- 1)" by code_simp
  have d2: "0 < tally (deleted_rows env_removed_remotely) idle_world (snd (?run env_removed_remotely))"
    by code_simp
  from syncSelectedCalendars_result [of env_full_fetch example_config "[work_url]" idle_world 1 "snd (?run env_full_fetch)"]
    r1 d1
  have "int (tally (accepted_writes env_full_fetch) idle_world (snd (?run env_full_fetch))) = 1"
    by (simp add: prod_eq_iff)
  moreover
  from syncSelectedCalendars_result [of env_removed_remotely example_config "[work_url]" idle_world "- 1"
              "snd (?run env_removed_remotely)"
              "tally (accepted_writes env_removed_remotely) idle_world
                 (snd (?run env_removed_remotely))"] r2 d2
  have "- 1 \<noteq> int (tally (accepted_writes env_removed_remotely) idle_world
                      (snd (?run env_removed_remotely)))"
    by (simp add: prod_eq_iff)
  ultimately show ?thesis using r1 d1 r2 d2 by simp
qed

text \<open>
  Claim C5, at a failing input.  The value returned should be the number of events that
  the pass created or updated.  In this pass the full fetch returns the one event
  \<open>standup\<close>, which the store already holds under its UID with another color.  The only
  write that the pass sends is the update by UID with an empty payload
  (\<open>updateEventByUID\<close> does not copy the color), so no request of the pass changes the
  stored events; yet the pass returns 1.
\<close>

theorem syncSelectedCalendars_counts_empty_update:
  "fst (syncSelectedCalendars env_recolored_pass example_config [work_url] idle_world) = Inr 1
   \<and> new_calls idle_world
        (snd (syncSelectedCalendars env_recolored_pass example_config [work_url] idle_world))
      = [ClockNow, ClockNow,
         PxFetchEvents example_config work_calendar
           \<lparr>d_year = 2025, d_month = 10, d_date = 3, d_time = 0\<rparr>
           \<lparr>d_year = 2027, d_month = 10, d_date = 3, d_time = 0\<rparr>,
         DbExistsByUID ''remote-1'' work_calendar,
         DbFetchByUID ''remote-1'' work_calendar,
         DbUpdateByUID ''remote-1'' work_calendar
           \<lparr>pl_title = None, pl_date = None, pl_memo = None,
            pl_start_time = None, pl_end_time = None\<rparr>,
         DbSelectCaldavEvents [work_calendar, work_url],
         PxGetSyncToken example_config work_calendar]
   \<and> filter changes_the_store
        (new_calls idle_world
           (snd (syncSelectedCalendars env_recolored_pass example_config [work_url] idle_world)))
      = []"
  by code_simp

text \<open>
  Claim C6, at a failing input.  The store holds the fetched event under its UID with
  another color.  The diff of the loop finds the color, and only the color, changed; the
  update that \<open>updateEventByUID\<close> sends has an empty payload, since the function copies
  five fields and the color is not one of them; and the event is counted as synced.
\<close>

theorem process_event_color_change_not_written:
  "compute_updates stored_standup standup = no_updates\<lparr>up_color := Some ''#3b82f6''\<rparr>
   \<and> new_calls idle_world
        (snd (process_event env_recolored work_calendar standup (fresh_loop, idle_world)))
      = [DbExistsByUID ''remote-1'' work_calendar,
         DbFetchByUID ''remote-1'' work_calendar,
         DbUpdateByUID ''remote-1'' work_calendar
           \<lparr>pl_title = None, pl_date = None, pl_memo = None,
            pl_start_time = None, pl_end_time = None\<rparr>]
   \<and> calendarSyncedCount
        (fst (process_event env_recolored work_calendar standup (fresh_loop, idle_world))) = 1"
  by code_simp

text \<open>
  Claim C10.  A call of \<open>syncSelectedCalendars\<close> that starts a pass (the flag is not
  set when it starts) leaves the flag cleared when it ends, whether it returns a number
  or throws.
\<close>

theorem syncSelectedCalendars_resets_flag: "\<not> syncInFlight w \<Longrightarrow>
    \<not> syncInFlight (snd (syncSelectedCalendars E config selectedCalendarUrls w))"
  by (simp add: syncSelectedCalendars_def split_beta)

text \<open>A pass that returns, and a pass that throws because the tokens cannot be written.\<close>

theorem syncSelectedCalendars_resets_flag_witness:
  "fst (syncSelectedCalendars env_full_fetch example_config [work_url] idle_world) = Inr 1
   \<and> \<not> syncInFlight (snd (syncSelectedCalendars env_full_fetch example_config [work_url] idle_world))
   \<and> fst (syncSelectedCalendars env_storage_full example_config [work_url] idle_world)
       = Inl ''setItem''
   \<and> \<not> syncInFlight (snd (syncSelectedCalendars env_storage_full example_config [work_url] idle_world))"
proof -
  have idle: "\<not> syncInFlight idle_world" by (simp add: idle_world_def)
  have "fst (syncSelectedCalendars env_full_fetch example_config [work_url] idle_world) = Inr 1"
    by code_simp
  moreover
  have "fst (syncSelectedCalendars env_storage_full example_config [work_url] idle_world)
          = Inl ''setItem''"
    by code_simp
  ultimately show ?thesis
    using syncSelectedCalendars_resets_flag [OF idle, of env_full_fetch example_config "[work_url]"]
          syncSelectedCalendars_resets_flag [OF idle, of env_storage_full example_config "[work_url]"]
    by simp
qed

section \<open>Properties of deleteEvent\<close>

lemma resource_url_under_calendar: "prefix calendarUrl (resource_url calendarUrl eventUid)"
  by (simp add: resource_url_def Let_def)

text \<open>
  Claim C9.  \<open>deleteEvent\<close> sends exactly one request: a \<open>DELETE\<close> of the resource
  of the UID under the calendar URL.  When the server answers with a success status or
  with 404 (not found), the function returns \<open>{ success: true }\<close>; with any other
  status it throws; and when \<open>fetch\<close> throws, so does it.
\<close>

theorem deleteEvent_not_found_is_success:
  assumes "request = \<lparr>rq_method = ''DELETE'', rq_url = resource_url calendarUrl eventUid,
                        rq_headers = delete_headers S user pass etag\<rparr>"
    and "result = deleteEvent S server_url user pass calendarUrl eventUid etag sent"
  shows "snd result = sent @ [request]
       \<and> prefix calendarUrl (rq_url request)
       \<and> (case http_fetch S (length sent) request of
            Inl err \<Rightarrow> fst result = Inl err
          | Inr response \<Rightarrow>
              if response_ok response \<or> rs_status response = 404
              then fst result = Inr \<lparr>success = True\<rparr>
              else fst result = Inl (''DELETE request failed: '' @ show_nat (rs_status response)))"
  using assms
  by (auto simp: deleteEvent_def Let_def resource_url_under_calendar split: sum.splits)

text \<open>
  Deleting twice: the server deletes (204), then no longer finds the resource (404), and
  both calls succeed.  A rejected precondition (412) throws.
\<close>

theorem deleteEvent_not_found_is_success_witness:
  "deleteEvent server_deleting ''https://caldav.example'' ''ann'' ''secret''
      ''https://caldav.example/home/work'' ''remote-1'' None []
     = (Inr \<lparr>success = True\<rparr>,
        [\<lparr>rq_method = ''DELETE'', rq_url = ''https://caldav.example/home/work/remote-1.ics'',
          rq_headers = [(''Authorization'', ''Basic YW5uOnNlY3JldA==''),
                        (''User-Agent'', ''Vividly/1.0'')]\<rparr>])
   \<and> fst (deleteEvent server_deleting ''https://caldav.example'' ''ann'' ''secret''
      ''https://caldav.example/home/work'' ''remote-1'' None
      [\<lparr>rq_method = ''DELETE'', rq_url = ''https://caldav.example/home/work/remote-1.ics'',
          rq_headers = [(''Authorization'', ''Basic YW5uOnNlY3JldA==''),
                        (''User-Agent'', ''Vividly/1.0'')]\<rparr>])
     = Inr \<lparr>success = True\<rparr>
   \<and> fst (deleteEvent server_rejecting ''https://caldav.example'' ''ann'' ''secret''
      ''https://caldav.example/home/work'' ''remote-1'' (Some ''etag-1'') [])
     = Inl ''DELETE request failed: 412''"
proof -
  let ?rq = "\<lparr>rq_method = ''DELETE'', rq_url = ''https://caldav.example/home/work/remote-1.ics'',
          rq_headers = [(''Authorization'', ''Basic YW5uOnNlY3JldA==''),
                        (''User-Agent'', ''Vividly/1.0'')]\<rparr>"
  have u: "resource_url ''https://caldav.example/home/work'' ''remote-1''
             = ''https://caldav.example/home/work/remote-1.ics''"
    by code_simp
  have h: "delete_headers server_deleting ''ann'' ''secret'' None
             = [(''Authorization'', ''Basic YW5uOnNlY3JldA==''), (''User-Agent'', ''Vividly/1.0'')]"
    by (simp add: delete_headers_def base64Encode_def server_deleting_def)
  have n: "show_nat 412 = ''412''" by code_simp
  have a: "http_fetch server_deleting 0 rq = Inr \<lparr>rs_status = 204\<rparr>"
          "http_fetch server_deleting (Suc 0) rq = Inr \<lparr>rs_status = 404\<rparr>"
          "http_fetch server_rejecting 0 rq = Inr \<lparr>rs_status = 412\<rparr>" for rq
    by (simp_all add: server_deleting_def server_rejecting_def)
  from deleteEvent_not_found_is_success [of ?rq "''https://caldav.example/home/work''" "''remote-1''" server_deleting
              "''ann''" "''secret''" None _  "''https://caldav.example''" "[]", OF _ refl]
  have 1: "deleteEvent server_deleting ''https://caldav.example'' ''ann'' ''secret''
      ''https://caldav.example/home/work'' ''remote-1'' None [] = (Inr \<lparr>success = True\<rparr>, [?rq])"
    by (simp add: u h a response_ok_def prod_eq_iff)
  from deleteEvent_not_found_is_success [of ?rq "''https://caldav.example/home/work''" "''remote-1''" server_deleting
              "''ann''" "''secret''" None _  "''https://caldav.example''" "[?rq]", OF _ refl]
  have 2: "fst (deleteEvent server_deleting ''https://caldav.example'' ''ann'' ''secret''
      ''https://caldav.example/home/work'' ''remote-1'' None [?rq]) = Inr \<lparr>success = True\<rparr>"
    by (simp add: u h a response_ok_def)
  from deleteEvent_not_found_is_success [of _ "''https://caldav.example/home/work''" "''remote-1''" server_rejecting
              "''ann''" "''secret''" "Some ''etag-1''" _  "''https://caldav.example''" "[]",
           OF refl refl]
  have 3: "fst (deleteEvent server_rejecting ''https://caldav.example'' ''ann'' ''secret''
      ''https://caldav.example/home/work'' ''remote-1'' (Some ''etag-1'') [])
     = Inl ''DELETE request failed: 412''"
    by (simp add: a response_ok_def n)
  from 1 2 3 show ?thesis by simp
qed

section \<open>Decimal digits, padding and parseInt\<close>

lemma of_char_digit_char: "n < 10 \<Longrightarrow> (of_char (digit_char n) :: nat) = 48 + n"
  by (simp add: digit_char_def)

lemma digit_char_eq_iff: "n < 10 \<Longrightarrow> digit_char n = c \<longleftrightarrow> (of_char c :: nat) = 48 + n"
proof
  assume "n < 10" "digit_char n = c"
  then show "(of_char c :: nat) = 48 + n" using of_char_digit_char [of n] by simp
next
  assume "n < 10" "(of_char c :: nat) = 48 + n"
  then have "char_of (of_char c :: nat) = digit_char n" by (simp add: digit_char_def)
  then show "digit_char n = c" by simp
qed

lemma digit_char_0: "digit_char 0 = CHR ''0''"
  by (simp add: digit_char_eq_iff)

lemma is_digit_digit_char [simp]: "n < 10 \<Longrightarrow> is_digit (digit_char n)"
  by (simp add: is_digit_def of_char_digit_char)

lemma digit_in_digit_char [simp]: "n < 10 \<Longrightarrow> digit_in 10 (digit_char n) = Some n"
  by (simp add: digit_in_def of_char_digit_char Let_def)

lemma digit_char_plain [simp]:
  assumes "n < 10"
  shows "\<not> js_space (digit_char n)" "\<not> line_break (digit_char n)"
    "digit_char n \<noteq> CHR ''-''" "digit_char n \<noteq> CHR ''+''" "digit_char n \<noteq> CHR ''x''"
    "digit_char n \<noteq> CHR ''X''" "digit_char n \<noteq> CHR '':''" "digit_char n \<noteq> CHR ''D''"
    "digit_char n \<noteq> CHR ''T''"
  using assms by (simp_all add: js_space_def line_break_def digit_char_eq_iff)

lemma show_nat_1: "n < 10 \<Longrightarrow> show_nat n = [digit_char n]"
  by (simp add: show_nat.simps)

lemma show_nat_2: "10 \<le> n \<Longrightarrow> n < 100 \<Longrightarrow> show_nat n = [digit_char (n div 10), digit_char (n mod 10)]"
  by (subst show_nat.simps) (simp add: show_nat_1)

lemma show_nat_3:
  "100 \<le> n \<Longrightarrow> n < 1000 \<Longrightarrow>
   show_nat n = [digit_char (n div 100), digit_char (n div 10 mod 10), digit_char (n mod 10)]"
  by (subst show_nat.simps) (simp add: show_nat_2 div_mult2_eq [symmetric])

lemma show_nat_4:
  "1000 \<le> n \<Longrightarrow> n < 10000 \<Longrightarrow>
   show_nat n = [digit_char (n div 1000), digit_char (n div 100 mod 10),
                 digit_char (n div 10 mod 10), digit_char (n mod 10)]"
  by (subst show_nat.simps) (simp add: show_nat_3 div_mult2_eq [symmetric])

lemma pad_start_2: "n < 100 \<Longrightarrow> pad_start 2 n = [digit_char (n div 10), digit_char (n mod 10)]"
  by (cases "n < 10") (simp_all add: pad_start_def show_nat_1 show_nat_2 digit_char_0)

lemma pad_start_4:
  "1000 \<le> n \<Longrightarrow> n < 10000 \<Longrightarrow>
   pad_start 4 n = [digit_char (n div 1000), digit_char (n div 100 mod 10),
                    digit_char (n div 10 mod 10), digit_char (n mod 10)]"
  by (simp add: pad_start_def show_nat_4)

lemma digits_value_2:
  "a < 10 \<Longrightarrow> b < 10 \<Longrightarrow> digits_value [digit_char a, digit_char b] = Some (a * 10 + b)"
  by (simp add: digits_value_def of_char_digit_char)

lemma digits_value_4:
  "a < 10 \<Longrightarrow> b < 10 \<Longrightarrow> c < 10 \<Longrightarrow> d < 10 \<Longrightarrow>
   digits_value [digit_char a, digit_char b, digit_char c, digit_char d]
     = Some (((a * 10 + b) * 10 + c) * 10 + d)"
  by (simp add: digits_value_def of_char_digit_char)

lemma parseInt_2:
  "a < 10 \<Longrightarrow> b < 10 \<Longrightarrow> parseInt [digit_char a, digit_char b] = Some (int (a * 10 + b))"
  by (simp add: parseInt_def parse_digits_def Let_def)

lemma parseInt_4:
  "a < 10 \<Longrightarrow> b < 10 \<Longrightarrow> c < 10 \<Longrightarrow> d < 10 \<Longrightarrow>
   parseInt [digit_char a, digit_char b, digit_char c, digit_char d]
     = Some (int (((a * 10 + b) * 10 + c) * 10 + d))"
  by (simp add: parseInt_def parse_digits_def Let_def)

lemma four_digits_value:
  "((n div 1000 * 10 + n div 100 mod 10) * 10 + n div 10 mod 10) * 10 + n mod 10 = (n::nat)"
proof -
  have 3: "n div 1000 * 10 + n div 100 mod 10 = n div 100"
    using div_mult_mod_eq [of "n div 100" 10] by (simp add: div_mult2_eq [symmetric])
  have 2: "n div 100 * 10 + n div 10 mod 10 = n div 10"
    using div_mult_mod_eq [of "n div 10" 10] by (simp add: div_mult2_eq [symmetric])
  have 1: "n div 10 * 10 + n mod 10 = n" by simp
  show ?thesis by (simp only: 3 2 1)
qed

section \<open>Dates\<close>

lemma next_day_steps:
  "k + d \<le> days_in_month y m \<Longrightarrow>
   (next_day ^^ k) \<lparr>c_year = y, c_month = m, c_day = d\<rparr> = \<lparr>c_year = y, c_month = m, c_day = d + k\<rparr>"
proof (induction k arbitrary: d)
  case 0
  show ?case by simp
next
  case (Suc k)
  from Suc.prems have "next_day \<lparr>c_year = y, c_month = m, c_day = d\<rparr>
                         = \<lparr>c_year = y, c_month = m, c_day = Suc d\<rparr>"
    by (simp add: next_day_def)
  with Suc.IH [of "Suc d"] Suc.prems show ?case by (simp add: funpow_swap1)
qed

lemma Date_UTC_valid:
  assumes "valid_civil c" "100 \<le> c_year c" "h < 24" "mi < 60"
  shows "Date_UTC (Some (c_year c)) (Some (int (c_month c) - 1)) (Some (int (c_day c)))
           (Some (int h)) (Some (int mi))
         = Some \<lparr>u_date = c, u_hours = h, u_minutes = mi\<rparr>"
proof -
  from assms have m: "1 \<le> c_month c" "c_month c \<le> 12" and d: "1 \<le> c_day c"
    "c_day c \<le> days_in_month (c_year c) (c_month c)" by (simp_all add: valid_civil_def)
  have yr: "(if 0 \<le> c_year c \<and> c_year c \<le> 99 then 1900 + c_year c else c_year c) = c_year c"
    using assms(2) by simp
  have first: "\<lparr>c_year = c_year c + (int (c_month c) - 1) div 12,
                c_month = nat ((int (c_month c) - 1) mod 12) + 1, c_day = 1\<rparr>
               = \<lparr>c_year = c_year c, c_month = c_month c, c_day = 1\<rparr>"
    using m by simp
  have carry: "(int h * 60 + int mi) div 1440 = 0"
    using assms(3,4) by simp
  have steps: "(next_day ^^ (c_day c - 1)) \<lparr>c_year = c_year c, c_month = c_month c, c_day = 1\<rparr>
                 = \<lparr>c_year = c_year c, c_month = c_month c, c_day = 1 + (c_day c - 1)\<rparr>"
    using d by (intro next_day_steps) simp
  have sh: "shift_days \<lparr>c_year = c_year c, c_month = c_month c, c_day = 1\<rparr>
              (int (c_day c) - 1 + (int h * 60 + int mi) div 1440) = c"
    using d steps by (simp add: carry shift_days_def nat_diff_distrib)
  have hrs: "nat ((int h * 60 + int mi) mod 1440 div 60) = h"
    using assms(3,4) by simp
  have mins: "nat ((int h * 60 + int mi) mod 1440 mod 60) = mi"
    using assms(3,4) by simp
  show ?thesis
    by (simp only: Date_UTC_def Let_def prod.case option.case yr first sh hrs mins)
qed


section \<open>Date values written by the encoder and read by the decoder\<close>

lemma days_in_month_le: "days_in_month y m \<le> 31"
  by (simp add: days_in_month_def)

lemma parseInt_two:
  assumes "n < 100"
  shows "parseInt [digit_char (n div 10), digit_char (n mod 10)] = Some (int n)"
proof -
  from assms have "parseInt [digit_char (n div 10), digit_char (n mod 10)]
                     = Some (int (n div 10 * 10 + n mod 10))"
    by (intro parseInt_2) simp_all
  then show ?thesis by (simp only: div_mult_mod_eq)
qed

lemma parseInt_four:
  assumes "n < 10000"
  shows "parseInt [digit_char (n div 1000), digit_char (n div 100 mod 10),
                   digit_char (n div 10 mod 10), digit_char (n mod 10)] = Some (int n)"
proof -
  from assms have "parseInt [digit_char (n div 1000), digit_char (n div 100 mod 10),
                             digit_char (n div 10 mod 10), digit_char (n mod 10)]
      = Some (int (((n div 1000 * 10 + n div 100 mod 10) * 10 + n div 10 mod 10) * 10 + n mod 10))"
    by (intro parseInt_4) simp_all
  then show ?thesis by (simp only: four_digits_value)
qed


lemma ical_date_time_parse:
  assumes "valid_civil c" and "1000 \<le> c_year c" and "c_year c \<le> 9999"
    and "h < 24" and "mi < 60" and "s < 60"
  shows "\<exists>v. ical_date_time c (h, mi, s) = Some v \<and> date_value_text v \<and> length v = 15 \<and>
             parse_dt v = Some (Some \<lparr>u_date = c, u_hours = h, u_minutes = mi\<rparr>)"
proof -
  define y where "y = nat (c_year c)"
  define m where "m = c_month c"
  define d where "d = c_day c"
  from assms have y: "1000 \<le> y" "y < 10000" and yi: "int y = c_year c"
    by (simp_all add: y_def)
  from assms(1) days_in_month_le [of "c_year c" "c_month c"] have m: "m < 100" and d: "d < 100"
    by (simp_all add: valid_civil_def m_def d_def)
  let ?v = "[digit_char (y div 1000), digit_char (y div 100 mod 10), digit_char (y div 10 mod 10),
             digit_char (y mod 10), digit_char (m div 10), digit_char (m mod 10),
             digit_char (d div 10), digit_char (d mod 10), CHR ''T'',
             digit_char (h div 10), digit_char (h mod 10), digit_char (mi div 10),
             digit_char (mi mod 10), digit_char (s div 10), digit_char (s mod 10)]"
  have v: "ical_date_time c (h, mi, s) = Some ?v"
    using assms(2-6) y m d
    by (simp add: ical_date_time_def ical_date_def show_nat_4 pad_start_2 y_def [symmetric]
          m_def [symmetric] d_def [symmetric])
  have dg: "y div 1000 < 10" "y div 100 mod 10 < 10" "y div 10 mod 10 < 10" "y mod 10 < 10"
    "m div 10 < 10" "m mod 10 < 10" "d div 10 < 10" "d mod 10 < 10"
    "h div 10 < 10" "h mod 10 < 10" "mi div 10 < 10" "mi mod 10 < 10"
    "s div 10 < 10" "s mod 10 < 10"
    using y m d assms(4-6) by simp_all
  have dv: "date_value_text ?v"
    using dg by (simp add: date_value_text_def)
  have py: "parseInt (take 4 ?v) = Some (c_year c)"
    using parseInt_four [OF y(2)] by (simp add: yi)
  have pm: "parseInt (take 2 (drop 4 ?v)) = Some (int (c_month c))"
    using parseInt_two [OF m] by (simp add: m_def)
  have pd: "parseInt (take 2 (drop 6 ?v)) = Some (int (c_day c))"
    using parseInt_two [OF d] by (simp add: d_def)
  have ph: "parseInt (take 2 (drop 9 ?v)) = Some (int h)"
    using parseInt_two [of h] assms(4) by simp
  have pmi: "parseInt (take 2 (drop 11 ?v)) = Some (int mi)"
    using parseInt_two [of mi] assms(5) by simp
  have "Date_UTC (Some (c_year c)) (Some (int (c_month c) - 1)) (Some (int (c_day c)))
          (Some (int h)) (Some (int mi)) = Some \<lparr>u_date = c, u_hours = h, u_minutes = mi\<rparr>"
    using assms(1,2,4,5) by (intro Date_UTC_valid) simp_all
  then have "parse_dt ?v = Some (Some \<lparr>u_date = c, u_hours = h, u_minutes = mi\<rparr>)"
    unfolding parse_dt_def Let_def py pm pd ph pmi by simp
  with v dv show ?thesis by simp
qed

section \<open>The expressions of parseICalEvent, line by line\<close>

text \<open>
  A match of one of the expressions lies within one line: the name has no line break, the
  lazy \<open>.*?\<close> cannot pass one, and the value stops at one.  So what an expression finds
  at a position before a line break does not depend on the text after the break.
\<close>

lemma takeWhile_stop: "\<not> P c \<Longrightarrow> takeWhile P (xs @ c # ys) = takeWhile P xs"
  by (induction xs) simp_all

lemma value_run_break: "line_break c \<Longrightarrow> value_run (s @ c # b) = value_run s"
  by (simp add: value_run_def takeWhile_stop)

lemma lazy_to_colon_break: "line_break c \<Longrightarrow> lazy_to_colon (s @ c # b) = lazy_to_colon s"
proof (induction s)
  case Nil
  then show ?case by (auto simp: line_break_def)
next
  case (Cons x s)
  then show ?case by (auto simp: value_run_break)
qed

lemma after_name_break: "line_break c \<Longrightarrow> after_name (s @ c # b) = after_name s"
proof (cases s)
  case Nil
  assume "line_break c"
  with Nil show ?thesis by (auto simp: line_break_def)
next
  case (Cons x t)
  assume "line_break c"
  with Cons show ?thesis by (simp add: value_run_break lazy_to_colon_break)
qed

lemma prefix_sep:
  assumes "prefix name (a @ c # b)" and "c \<notin> set name"
  shows "prefix name a"
proof -
  from assms(1) consider "prefix name a" | us where "name = a @ us" "prefix us (c # b)"
    unfolding prefix_append by blast
  then show ?thesis
  proof cases
    case 1
    then show ?thesis .
  next
    case 2
    show ?thesis
    proof (cases us)
      case Nil
      with 2 show ?thesis by simp
    next
      case (Cons u us')
      with 2 have "u = c" by simp
      with 2 Cons have "c \<in> set name" by simp
      with assms(2) show ?thesis by simp
    qed
  qed
qed

lemma match_at_break:
  assumes "line_break c" and "c \<notin> set name"
  shows "match_at name (s @ c # b) = match_at name s"
proof (cases "prefix name s")
  case True
  then obtain t where s: "s = name @ t" by (auto simp: prefix_def)
  then show ?thesis by (simp add: match_at_def after_name_break [OF assms(1)])
next
  case False
  with prefix_sep [OF _ assms(2)] have "\<not> prefix name (s @ c # b)" by blast
  with False show ?thesis by (simp add: match_at_def)
qed

lemma match_at_Nil: "name \<noteq> [] \<Longrightarrow> match_at name [] = None"
  by (simp add: match_at_def)

lemma regex_first_break:
  assumes "line_break c" and "c \<notin> set name" and "name \<noteq> []"
  shows "regex_first name (a @ c # b) =
           (case regex_first name a of Some v \<Rightarrow> Some v | None \<Rightarrow> regex_first name b)"
proof (induction a)
  case Nil
  from match_at_break [OF assms(1,2), of "[]" b] show ?case
    by (simp add: match_at_Nil [OF assms(3)])
next
  case (Cons x a)
  from match_at_break [OF assms(1,2), of "x # a" b]
  have "match_at name (x # a @ c # b) = match_at name (x # a)" by simp
  with Cons.IH show ?case by (simp split: option.splits)
qed

lemma regex_first_join:
  assumes "name \<noteq> []" and "CHR 0x0D \<notin> set name" and "CHR 0x0A \<notin> set name"
  shows "regex_first name (join_lines ls) = first_match name ls"
proof (induction ls rule: join_lines.induct)
  case 1
  show ?case by (simp add: match_at_Nil [OF assms(1)])
next
  case (2 l)
  show ?case by (simp split: option.splits)
next
  case (3 l l' ls)
  let ?rest = "join_lines (l' # ls)"
  have cr: "line_break (CHR 0x0D)" by (simp add: line_break_def)
  from assms(1,3) have "\<not> prefix name (CHR 0x0A # ?rest)" by (cases name) auto
  then have lf: "regex_first name (CHR 0x0A # ?rest) = regex_first name ?rest"
    by (simp add: match_at_def)
  have "regex_first name (join_lines (l # l' # ls)) = regex_first name (l @ CHR 0x0D # (CHR 0x0A # ?rest))"
    by (simp add: CRLF_def)
  also have "\<dots> = (case regex_first name l of Some v \<Rightarrow> Some v | None \<Rightarrow> regex_first name ?rest)"
    unfolding regex_first_break [OF cr assms(2,1)] lf ..
  also have "\<dots> = first_match name (l # l' # ls)"
    unfolding "3.IH" by simp
  finally show ?case .
qed

lemma first_match_append:
  "first_match name (xs @ ys) =
     (case first_match name xs of Some v \<Rightarrow> Some v | None \<Rightarrow> first_match name ys)"
  by (induction xs) (simp_all split: option.splits)

lemma regex_first_here: "match_at name s = Some v \<Longrightarrow> regex_first name s = Some v"
  by (cases s) simp_all

lemma no_sublist_no_match: "\<not> sublist name l \<Longrightarrow> regex_first name l = None"
proof (induction l)
  case Nil
  then show ?case by (simp add: match_at_def)
next
  case (Cons c l)
  then have "\<not> prefix name (c # l)" and "\<not> sublist name l"
    by (simp_all add: sublist_Cons_right)
  with Cons.IH show ?case by (simp add: match_at_def)
qed

lemma not_sublist_missing_char: "c \<in> set name \<Longrightarrow> c \<notin> set b \<Longrightarrow> \<not> sublist name b"
  using set_mono_sublist by fastforce


section \<open>The lines of the encoder's text\<close>

lemma foldline_short: "length l \<le> 75 \<Longrightarrow> foldline l = l"
  by (subst foldline.simps) simp


lemma trim_plain: "\<forall>c\<in>set s. \<not> js_space c \<Longrightarrow> trim s = s"
proof -
  assume a: "\<forall>c\<in>set s. \<not> js_space c"
  have "dropWhile js_space xs = xs" if "\<forall>c\<in>set xs. \<not> js_space c" for xs
    using that by (cases xs) simp_all
  from this [of s] this [of "rev s"] a show ?thesis by (simp add: trim_def)
qed

lemma fixed_lines:
  "foldline (''PRODID:'' @ escape_text ''-//Vividly App//KR'') = ''PRODID:-//Vividly App//KR''"
  "foldline (''VERSION:'' @ escape_text ''2.0'') = ''VERSION:2.0''"
  by (simp_all add: foldline_short escape_text_def)

lemma fixed_lines_unread:
  "regex_first ''UID'' ''BEGIN:VCALENDAR'' = None"
  "regex_first ''UID'' ''PRODID:-//Vividly App//KR'' = None"
  "regex_first ''UID'' ''VERSION:2.0'' = None"
  "regex_first ''UID'' ''BEGIN:VEVENT'' = None"
  "regex_first ''UID'' ''END:VEVENT'' = None"
  "regex_first ''UID'' ''END:VCALENDAR'' = None"
  "regex_first ''DTSTART'' ''BEGIN:VCALENDAR'' = None"
  "regex_first ''DTSTART'' ''PRODID:-//Vividly App//KR'' = None"
  "regex_first ''DTSTART'' ''VERSION:2.0'' = None"
  "regex_first ''DTSTART'' ''BEGIN:VEVENT'' = None"
  "regex_first ''DTSTART'' ''END:VEVENT'' = None"
  "regex_first ''DTSTART'' ''END:VCALENDAR'' = None"
  "regex_first ''DTEND'' ''BEGIN:VCALENDAR'' = None"
  "regex_first ''DTEND'' ''PRODID:-//Vividly App//KR'' = None"
  "regex_first ''DTEND'' ''VERSION:2.0'' = None"
  "regex_first ''DTEND'' ''BEGIN:VEVENT'' = None"
  "regex_first ''DTEND'' ''END:VEVENT'' = None"
  "regex_first ''DTEND'' ''END:VCALENDAR'' = None"
  by code_simp+

text \<open>
  What an expression finds in the text of the encoder: its first match in the lines of
  the three text properties, of the dates and of the time stamp, in this order.
\<close>

lemma calendar_text_search:
  assumes "name = ''UID'' \<or> name = ''DTSTART'' \<or> name = ''DTEND''"
  shows "regex_first name (calendar_text summary description uid dates stamp) =
           first_match name
             ([property_line ''SUMMARY'' summary, property_line ''DESCRIPTION'' description,
               property_line ''UID'' uid]
              @ map foldline dates @ [foldline (''DTSTAMP:'' @ stamp)])"
proof -
  let ?mid = "[property_line ''SUMMARY'' summary, property_line ''DESCRIPTION'' description,
               property_line ''UID'' uid]
              @ map foldline dates @ [foldline (''DTSTAMP:'' @ stamp)]"
  let ?top = "[''BEGIN:VCALENDAR'', ''PRODID:-//Vividly App//KR'', ''VERSION:2.0'', ''BEGIN:VEVENT'']"
  let ?bottom = "[''END:VEVENT'', ''END:VCALENDAR'']"
  from assms have n: "name \<noteq> []" "CHR 0x0D \<notin> set name" "CHR 0x0A \<notin> set name" by auto
  have top: "first_match name ?top = None"
    using assms by (elim disjE) (simp_all only: first_match.simps fixed_lines_unread option.case)
  have bottom: "first_match name ?bottom = None"
    using assms by (elim disjE) (simp_all only: first_match.simps fixed_lines_unread option.case)
  have "calendar_text summary description uid dates stamp = join_lines (?top @ ?mid @ ?bottom)"
    unfolding calendar_text_def fixed_lines property_line_def by simp
  then have "regex_first name (calendar_text summary description uid dates stamp)
               = first_match name (?top @ ?mid @ ?bottom)"
    by (simp only: regex_first_join [OF n])
  also have "\<dots> = first_match name (?mid @ ?bottom)"
    by (simp only: first_match_append [of name ?top] top option.case)
  also have "\<dots> = first_match name ?mid"
    by (cases "first_match name ?mid") (simp_all only: first_match_append [of name ?mid] bottom option.case)
  finally show ?thesis .
qed

lemma value_run_whole:
  assumes "v \<noteq> []" and "\<forall>c\<in>set v. \<not> line_break c"
  shows "value_run v = Some v"
proof -
  from assms(2) have tw: "takeWhile (\<lambda>c. \<not> line_break c) v = v" by (simp add: takeWhile_eq_all_conv)
  show ?thesis unfolding value_run_def Let_def tw using assms(1) by simp
qed



lemma date_value_text_chars:
  assumes "date_value_text v"
  shows "v \<noteq> []" "length v \<le> 15" "\<forall>c\<in>set v. \<not> line_break c" "\<forall>c\<in>set v. \<not> js_space c"
    "CHR ''N'' \<notin> set v"
  using assms
  by (auto simp: date_value_text_def list_all_iff is_digit_def line_break_def js_space_def)

lemma date_line:
  assumes "date_value_text v" and "sep = '':'' \<or> sep = '';VALUE=DATE:''"
    and "name = ''DTSTART'' \<or> name = ''DTEND''"
  shows "foldline (name @ sep @ v) = name @ sep @ v"
    and "regex_first name (name @ sep @ v) = Some v"
proof -
  note d = date_value_text_chars [OF assms(1)]
  from assms(2,3) d(2) have "length (name @ sep @ v) \<le> 75" by auto
  then show "foldline (name @ sep @ v) = name @ sep @ v" by (rule foldline_short)
  have "after_name (sep @ v) = Some v"
    using assms(2) value_run_whole [OF d(1,3)] by (auto simp: line_break_def)
  then have "match_at name (name @ sep @ v) = Some v" by (simp add: match_at_def)
  then show "regex_first name (name @ sep @ v) = Some v" by (rule regex_first_here)
qed

lemma dtstart_line_no_dtend:
  assumes "date_value_text v" and "sep = '':'' \<or> sep = '';VALUE=DATE:''"
  shows "regex_first ''DTEND'' (''DTSTART'' @ sep @ v) = None"
proof -
  from date_value_text_chars(5) [OF assms(1)] assms(2)
  have "CHR ''N'' \<notin> set (''DTSTART'' @ sep @ v)" by auto
  then have "\<not> sublist ''DTEND'' (''DTSTART'' @ sep @ v)"
    by (intro not_sublist_missing_char [of "CHR ''N''"]) simp_all
  then show ?thesis by (rule no_sublist_no_match)
qed

section \<open>What serializeEventToICS writes\<close>



lemma iso_date_digits:
  assumes "valid_civil c" and "1000 \<le> c_year c" and "c_year c \<le> 9999"
  shows "iso_date c =
           [digit_char (nat (c_year c) div 1000), digit_char (nat (c_year c) div 100 mod 10),
            digit_char (nat (c_year c) div 10 mod 10), digit_char (nat (c_year c) mod 10), CHR ''-'',
            digit_char (c_month c div 10), digit_char (c_month c mod 10), CHR ''-'',
            digit_char (c_day c div 10), digit_char (c_day c mod 10)]"
proof -
  from assms(1) days_in_month_le [of "c_year c" "c_month c"]
  have "c_month c < 100" "c_day c < 100" by (simp_all add: valid_civil_def)
  moreover from assms(2,3) have "1000 \<le> nat (c_year c)" "nat (c_year c) < 10000" by simp_all
  ultimately show ?thesis
    using assms(2,3) by (simp add: iso_date_def iso_year_def pad_start_4 pad_start_2)
qed

lemma digits_value_two:
  assumes "n < 100"
  shows "digits_value [digit_char (n div 10), digit_char (n mod 10)] = Some n"
proof -
  from assms have "digits_value [digit_char (n div 10), digit_char (n mod 10)]
                     = Some (n div 10 * 10 + n mod 10)"
    by (intro digits_value_2) simp_all
  then show ?thesis by (simp only: div_mult_mod_eq)
qed

lemma digits_value_four:
  assumes "n < 10000"
  shows "digits_value [digit_char (n div 1000), digit_char (n div 100 mod 10),
                       digit_char (n div 10 mod 10), digit_char (n mod 10)] = Some n"
proof -
  from assms have "digits_value [digit_char (n div 1000), digit_char (n div 100 mod 10),
                                 digit_char (n div 10 mod 10), digit_char (n mod 10)]
      = Some (((n div 1000 * 10 + n div 100 mod 10) * 10 + n div 10 mod 10) * 10 + n mod 10)"
    by (intro digits_value_4) simp_all
  then show ?thesis by (simp only: four_digits_value)
qed

lemma parse_iso_date_iso_date:
  assumes "valid_civil c" and "1000 \<le> c_year c" and "c_year c \<le> 9999"
  shows "parse_iso_date (iso_date c) = Some c"
proof -
  from assms(1) days_in_month_le [of "c_year c" "c_month c"]
  have md: "c_month c < 100" "c_day c < 100" by (simp_all add: valid_civil_def)
  from assms(2,3) have y: "nat (c_year c) < 10000" by simp
  show ?thesis
    unfolding iso_date_digits [OF assms] parse_iso_date_def
    using assms(1,2)
    by (simp add: digits_value_four [OF y] digits_value_two [OF md(1)] digits_value_two [OF md(2)]
          Let_def valid_civil_def)
qed

lemma iso_date_not_empty: "iso_date c \<noteq> []"
  by (simp add: iso_date_def)

text \<open>A time that \<open>new Date\<close> accepts is a time of the day, and its text is not empty.\<close>

lemma parse_iso_time_range:
  assumes "parse_iso_time s = Some (h, m, sec)"
  shows "h < 24" "m < 60" "sec < 60" "s \<noteq> []"
  using assms
  by (auto simp: parse_iso_time_def split: if_splits option.splits)


lemma serialize_all_day:
  assumes "e_date e = Some (iso_date c)" and "valid_civil c" and "1000 \<le> c_year c"
    and "c_year c \<le> 9999" and "\<not> (truthy (e_startTime e) \<and> truthy (e_endTime e))"
    and "ical_date (local_date_of_utc_midnight P c) = Some v1"
    and "ical_date (next_day (local_date_of_utc_midnight P c)) = Some v2"
    and "ical_date_time (now_date P) (now_time P) = Some stamp"
  shows "serializeEventToICS P e =
           Some (calendar_text
                   (if truthy (e_title e) then or_empty (e_title e) else default_title)
                   (or_empty (e_memo e))
                   (if truthy (e_caldavUid e) then or_empty (e_caldavUid e) else fresh_uid P)
                   [''DTSTART;VALUE=DATE:'' @ v1, ''DTEND;VALUE=DATE:'' @ v2] stamp)"
proof -
  have "date_lines P e = Some [''DTSTART;VALUE=DATE:'' @ v1, ''DTEND;VALUE=DATE:'' @ v2]"
    using assms(5)
    by (auto simp: date_lines_def assms(1) iso_date_not_empty parse_iso_date_iso_date [OF assms(2-4)]
          Let_def assms(6,7))
  then show ?thesis by (simp add: serializeEventToICS_def Let_def assms(8))
qed

lemma serialize_timed:
  assumes "e_date e = Some (iso_date c)" and "valid_civil c" and "1000 \<le> c_year c"
    and "c_year c \<le> 9999"
    and "e_startTime e = Some s" and "parse_iso_time s = Some ts"
    and "e_endTime e = Some t" and "parse_iso_time t = Some te"
    and "ical_date_time c ts = Some v1" and "ical_date_time c te = Some v2"
    and "ical_date_time (now_date P) (now_time P) = Some stamp"
  shows "serializeEventToICS P e =
           Some (calendar_text
                   (if truthy (e_title e) then or_empty (e_title e) else default_title)
                   (or_empty (e_memo e))
                   (if truthy (e_caldavUid e) then or_empty (e_caldavUid e) else fresh_uid P)
                   [''DTSTART:'' @ v1, ''DTEND:'' @ v2] stamp)"
proof -
  obtain h1 m1 s1 where ts: "ts = (h1, m1, s1)" by (cases ts)
  obtain h2 m2 s2 where te: "te = (h2, m2, s2)" by (cases te)
  from parse_iso_time_range(4) [of s h1 m1 s1] parse_iso_time_range(4) [of t h2 m2 s2] assms(6,8)
  have ne: "s \<noteq> []" "t \<noteq> []" by (simp_all add: ts te)
  have "date_lines P e = Some [''DTSTART:'' @ v1, ''DTEND:'' @ v2]"
    by (simp add: date_lines_def assms(1,5,7) iso_date_not_empty ne
          parse_iso_date_iso_date [OF assms(2-4)] assms(6,8,9,10))
  then show ?thesis by (simp add: serializeEventToICS_def Let_def assms(11))
qed

section \<open>What parseICalEvent reads in the text of the encoder\<close>


lemma misread_Nil: "\<not> misread [] line"
  by (simp add: misread_def)

lemma not_misread:
  assumes "\<not> misread names line" and "name \<in> set names"
  shows "regex_first name line = None"
  using assms by (auto simp: misread_def list_ex_iff)

text \<open>
  The UID that the decoder finds is the first match of its expression in the lines of
  the three text properties, if there is one.
\<close>

lemma uid_search:
  assumes "first_match ''UID''
             [property_line ''SUMMARY'' summary, property_line ''DESCRIPTION'' description,
              property_line ''UID'' uid] = Some r"
  shows "regex_first ''UID'' (calendar_text summary description uid dates stamp) = Some r"
  unfolding calendar_text_search [of "''UID''", OF disjI1 [OF refl]] first_match_append assms
  by simp

text \<open>
  When the lines of the three text properties are not misread, the decoder finds the
  dates in the lines of \<open>DTSTART\<close> and \<open>DTEND\<close>.
\<close>

lemma dates_search:
  assumes "\<not> misread [''DTSTART'', ''DTEND''] (property_line ''SUMMARY'' summary)"
    and "\<not> misread [''DTSTART'', ''DTEND''] (property_line ''DESCRIPTION'' description)"
    and "\<not> misread [''DTSTART'', ''DTEND''] (property_line ''UID'' uid)"
    and "sep = '':'' \<or> sep = '';VALUE=DATE:''"
    and "date_value_text v1" and "date_value_text v2"
  shows "regex_first ''DTSTART''
           (calendar_text summary description uid [''DTSTART'' @ sep @ v1, ''DTEND'' @ sep @ v2] stamp)
         = Some v1"
    and "regex_first ''DTEND''
           (calendar_text summary description uid [''DTSTART'' @ sep @ v1, ''DTEND'' @ sep @ v2] stamp)
         = Some v2"
proof -
  let ?pre = "[property_line ''SUMMARY'' summary, property_line ''DESCRIPTION'' description,
               property_line ''UID'' uid]"
  have s: "first_match ''DTSTART'' ?pre = None" and e: "first_match ''DTEND'' ?pre = None"
    using not_misread [OF assms(1)] not_misread [OF assms(2)] not_misread [OF assms(3)]
    by simp_all
  note l1 = date_line [OF assms(5,4), of "''DTSTART''", OF disjI1 [OF refl]]
  note l2 = date_line [OF assms(6,4), of "''DTEND''", OF disjI2 [OF refl]]
  note n = dtstart_line_no_dtend [OF assms(5,4)]
  show "regex_first ''DTSTART''
           (calendar_text summary description uid [''DTSTART'' @ sep @ v1, ''DTEND'' @ sep @ v2] stamp)
         = Some v1"
    unfolding calendar_text_search [of "''DTSTART''", OF disjI2 [OF disjI1 [OF refl]]]
      first_match_append s
    unfolding list.map l1(1) l2(1) first_match.simps l1(2)
    by (simp only: option.case)
  show "regex_first ''DTEND''
           (calendar_text summary description uid [''DTSTART'' @ sep @ v1, ''DTEND'' @ sep @ v2] stamp)
         = Some v2"
    unfolding calendar_text_search [of "''DTEND''", OF disjI2 [OF disjI2 [OF refl]]]
      first_match_append e
    unfolding list.map l1(1) l2(1) first_match.simps n l2(2)
    by (simp only: option.case)
qed

lemma parseICalEvent_calendar_text:
  assumes "\<not> misread [''DTSTART'', ''DTEND''] (property_line ''SUMMARY'' summary)"
    and "\<not> misread [''DTSTART'', ''DTEND''] (property_line ''DESCRIPTION'' description)"
    and "\<not> misread [''DTSTART'', ''DTEND''] (property_line ''UID'' uid)"
    and "sep = '':'' \<or> sep = '';VALUE=DATE:''"
    and "date_value_text v1" and "date_value_text v2"
    and "parse_dt v1 = Some (Some u1)" and "parse_dt v2 = Some (Some u2)"
    and "first_match ''UID''
           [property_line ''SUMMARY'' summary, property_line ''DESCRIPTION'' description,
            property_line ''UID'' uid] = Some r"
  shows "\<exists>p. parseICalEvent
               (calendar_text summary description uid [''DTSTART'' @ sep @ v1, ''DTEND'' @ sep @ v2] stamp)
               defaultColor = Some p \<and>
             p_date p = iso_date (u_date u1) \<and>
             p_startTime p = (if 8 < length v1 then Some (hh_mm (u_hours u1) (u_minutes u1)) else None) \<and>
             p_endTime p = (if 8 < length v2 then Some (hh_mm (u_hours u2) (u_minutes u2)) else None) \<and>
             p_uid p = Some (trim r)"
proof -
  let ?text = "calendar_text summary description uid [''DTSTART'' @ sep @ v1, ''DTEND'' @ sep @ v2] stamp"
  note d1 = date_value_text_chars [OF assms(5)]
  note d2 = date_value_text_chars [OF assms(6)]
  have r: "regex_first ''UID'' ?text = Some r" "regex_first ''DTSTART'' ?text = Some v1"
    "regex_first ''DTEND'' ?text = Some v2"
    by (rule uid_search [OF assms(9)], rule dates_search(1) [OF assms(1-6)],
        rule dates_search(2) [OF assms(1-6)])
  have t: "trim v1 = v1" "trim v2 = v2"
    using d1(4) d2(4) by (simp_all add: trim_plain)
  show ?thesis
    unfolding parseICalEvent_def r
    using d2(1) by (simp add: Let_def t assms(7,8) clock_time_def)
qed

section \<open>The round trip through serializeEventToICS and parseICalEvent\<close>







section \<open>The all-day event of the encoder's test\<close>

lemma jan_29: "iso_date \<lparr>c_year = 2024, c_month = 1, c_day = 29\<rparr> = ''2024-01-29''"
  by code_simp

lemma jan_29_valid: "valid_civil \<lparr>c_year = 2024, c_month = 1, c_day = 29\<rparr>"
  by code_simp

lemma all_day_event_text:
  "serializeEventToICS (host_at offset) all_day_event =
     Some (calendar_text ''All Day Event'' [] ''vividly-1706779800000-k3j9x0q2a''
             (if offset < 0
              then [''DTSTART;VALUE=DATE:20240128'', ''DTEND;VALUE=DATE:20240129'']
              else [''DTSTART;VALUE=DATE:20240129'', ''DTEND;VALUE=DATE:20240130''])
             ''20240201T093000'')"
proof -
  let ?c = "\<lparr>c_year = 2024, c_month = 1, c_day = 29\<rparr>"
  have d: "e_date all_day_event = Some (iso_date ?c)"
    unfolding jan_29 by (simp add: all_day_event_def)
  have t: "\<not> (truthy (e_startTime all_day_event) \<and> truthy (e_endTime all_day_event))"
    by (simp add: all_day_event_def)
  have y: "1000 \<le> c_year ?c" "c_year ?c \<le> 9999" by simp_all
  have days: "prev_day ?c = \<lparr>c_year = 2024, c_month = 1, c_day = 28\<rparr>"
    "next_day \<lparr>c_year = 2024, c_month = 1, c_day = 28\<rparr> = ?c"
    "next_day ?c = \<lparr>c_year = 2024, c_month = 1, c_day = 30\<rparr>"
    by code_simp+
  have v: "ical_date \<lparr>c_year = 2024, c_month = 1, c_day = 28\<rparr> = Some ''20240128''"
    "ical_date ?c = Some ''20240129''"
    "ical_date \<lparr>c_year = 2024, c_month = 1, c_day = 30\<rparr> = Some ''20240130''"
    by code_simp+
  have s: "ical_date_time (now_date (host_at offset)) (now_time (host_at offset))
             = Some ''20240201T093000''"
    unfolding host_at_def platform.simps by code_simp
  have r: "(if truthy (e_title all_day_event) then or_empty (e_title all_day_event)
             else default_title) = ''All Day Event''"
    "or_empty (e_memo all_day_event) = []"
    "(if truthy (e_caldavUid all_day_event) then or_empty (e_caldavUid all_day_event)
      else fresh_uid (host_at offset)) = ''vividly-1706779800000-k3j9x0q2a''"
    by (simp_all add: all_day_event_def host_at_def)
  show ?thesis
  proof (cases "offset < 0")
    case True
    have l: "local_date_of_utc_midnight (host_at offset) ?c
               = \<lparr>c_year = 2024, c_month = 1, c_day = 28\<rparr>"
      unfolding local_date_of_utc_midnight_def days using True by (simp add: host_at_def)
    have a1: "ical_date (local_date_of_utc_midnight (host_at offset) ?c) = Some ''20240128''"
      unfolding l by (rule v(1))
    have a2: "ical_date (next_day (local_date_of_utc_midnight (host_at offset) ?c))
                = Some ''20240129''"
      unfolding l days by (rule v(2))
    show ?thesis
      unfolding serialize_all_day [OF d jan_29_valid y t a1 a2 s] r using True by simp
  next
    case False
    have l: "local_date_of_utc_midnight (host_at offset) ?c = ?c"
      unfolding local_date_of_utc_midnight_def using False by (simp add: host_at_def)
    have a1: "ical_date (local_date_of_utc_midnight (host_at offset) ?c) = Some ''20240129''"
      unfolding l by (rule v(2))
    have a2: "ical_date (next_day (local_date_of_utc_midnight (host_at offset) ?c))
                = Some ''20240130''"
      unfolding l days by (rule v(3))
    show ?thesis
      unfolding serialize_all_day [OF d jan_29_valid y t a1 a2 s] r using False by simp
  qed
qed

lemma all_day_event_body:
  "calendar_text ''All Day Event'' [] ''vividly-1706779800000-k3j9x0q2a'' [l1, l2] ''20240201T093000''
     = ''BEGIN:VCALENDAR'' @ CRLF @ ''PRODID:-//Vividly App//KR'' @ CRLF @ ''VERSION:2.0'' @ CRLF @
       ''BEGIN:VEVENT'' @ CRLF @ ''SUMMARY:All Day Event'' @ CRLF @ ''DESCRIPTION:'' @ CRLF @
       ''UID:vividly-1706779800000-k3j9x0q2a'' @ CRLF @ foldline l1 @ CRLF @ foldline l2 @ CRLF @
       ''DTSTAMP:20240201T093000'' @ CRLF @ ''END:VEVENT'' @ CRLF @ ''END:VCALENDAR''"
  by (simp add: calendar_text_def escape_text_def foldline_short)

text \<open>
  Claim C8.  Encoding the all-day event with date \<open>2024-01-29\<close> should give
  \<open>DTSTART;VALUE=DATE:20240129\<close> and \<open>DTEND;VALUE=DATE:20240130\<close>, as the
  encoder's own test expects.  On a host whose local zone is behind UTC (here five hours)
  it does not: \<open>new Date('2024-01-29')\<close> is midnight UTC, which the local getters read
  as the evening of the 28th, so the body carries \<open>20240128\<close> as the start and
  \<open>20240129\<close> as the end, and \<open>20240130\<close> occurs nowhere in it.
\<close>

theorem serializeEventToICS_all_day_behind_utc:
  "map_option (sublist ''DTSTART;VALUE=DATE:20240128'')
     (serializeEventToICS (host_at (- 300)) all_day_event) = Some True \<and>
   map_option (sublist ''DTEND;VALUE=DATE:20240129'')
     (serializeEventToICS (host_at (- 300)) all_day_event) = Some True \<and>
   map_option (sublist ''20240130'')
     (serializeEventToICS (host_at (- 300)) all_day_event) = Some False"
  unfolding all_day_event_text
  by (simp add: all_day_event_body foldline_short CRLF_def sublist_Cons_right)

text \<open>
  On a host at or ahead of UTC the same event is encoded as the claim says.
\<close>

lemma serializeEventToICS_all_day_ahead_of_utc:
  "0 \<le> offset \<Longrightarrow>
   map_option (sublist ''DTSTART;VALUE=DATE:20240129'')
     (serializeEventToICS (host_at offset) all_day_event) = Some True \<and>
   map_option (sublist ''DTEND;VALUE=DATE:20240130'')
     (serializeEventToICS (host_at offset) all_day_event) = Some True"
  unfolding all_day_event_text
  by (simp add: all_day_event_body foldline_short CRLF_def sublist_Cons_right)

section \<open>The round trip of an event\<close>




section \<open>Where the round trip ends\<close>

text \<open>
  The text of the meeting of the encoder's test, whatever its title, memo and UID, and
  the UID that the decoder reads from it.
\<close>

lemma meeting_text:
  assumes "e_date e = Some ''2024-01-29''" and "e_startTime e = Some ''10:00''"
    and "e_endTime e = Some ''11:00''"
  shows "serializeEventToICS (host_at offset) e =
           Some (calendar_text
                   (if truthy (e_title e) then or_empty (e_title e) else default_title)
                   (or_empty (e_memo e))
                   (if truthy (e_caldavUid e) then or_empty (e_caldavUid e)
                    else fresh_uid (host_at offset))
                   [''DTSTART:'' @ ''20240129T100000'', ''DTEND:'' @ ''20240129T110000'']
                   ''20240201T093000'')"
proof -
  let ?c = "\<lparr>c_year = 2024, c_month = 1, c_day = 29\<rparr>"
  have d: "e_date e = Some (iso_date ?c)" unfolding jan_29 by (rule assms(1))
  have y: "1000 \<le> c_year ?c" "c_year ?c \<le> 9999" by simp_all
  have pt: "parse_iso_time ''10:00'' = Some (10, 0, 0)" "parse_iso_time ''11:00'' = Some (11, 0, 0)"
    by code_simp+
  have v: "ical_date_time ?c (10, 0, 0) = Some ''20240129T100000''"
    "ical_date_time ?c (11, 0, 0) = Some ''20240129T110000''"
    by code_simp+
  have s: "ical_date_time (now_date (host_at offset)) (now_time (host_at offset))
             = Some ''20240201T093000''"
    unfolding host_at_def platform.simps by code_simp
  show ?thesis
    by (rule serialize_timed [OF d jan_29_valid y assms(2) pt(1) assms(3) pt(2) v s])
qed

lemma meeting_uid:
  assumes "e_date e = Some ''2024-01-29''" and "e_startTime e = Some ''10:00''"
    and "e_endTime e = Some ''11:00''" and "e_memo e = None"
    and "e_title e = Some title" and "title \<noteq> []" and "e_caldavUid e = Some uid" and "uid \<noteq> []"
    and "\<not> misread [''DTSTART'', ''DTEND''] (property_line ''SUMMARY'' title)"
    and "\<not> misread [''DTSTART'', ''DTEND''] (property_line ''UID'' uid)"
    and "first_match ''UID''
           [property_line ''SUMMARY'' title, property_line ''DESCRIPTION'' [],
            property_line ''UID'' uid] = Some r"
  shows "map_option p_uid (decode_encode (host_at offset) e defaultColor) = Some (Some (trim r))"
proof -
  let ?c = "\<lparr>c_year = 2024, c_month = 1, c_day = 29\<rparr>"
  let ?text = "calendar_text title [] uid
                 [''DTSTART'' @ '':'' @ ''20240129T100000'',
                  ''DTEND'' @ '':'' @ ''20240129T110000''] ''20240201T093000''"
  have a: "(if truthy (e_title e) then or_empty (e_title e) else default_title) = title"
    "or_empty (e_memo e) = []"
    "(if truthy (e_caldavUid e) then or_empty (e_caldavUid e) else fresh_uid (host_at offset)) = uid"
    using assms(4-8) by simp_all
  have l: "[''DTSTART:'' @ ''20240129T100000'', ''DTEND:'' @ ''20240129T110000'']
             = [''DTSTART'' @ '':'' @ ''20240129T100000'', ''DTEND'' @ '':'' @ ''20240129T110000'']"
    by simp
  have enc: "serializeEventToICS (host_at offset) e = Some ?text"
    unfolding meeting_text [OF assms(1-3), of offset] a l ..
  have y: "1000 \<le> c_year ?c" "c_year ?c \<le> 9999" by simp_all
  have v: "ical_date_time ?c (10, 0, 0) = Some ''20240129T100000''"
    "ical_date_time ?c (11, 0, 0) = Some ''20240129T110000''"
    by code_simp+
  have "\<exists>v. ical_date_time ?c (10, 0, 0) = Some v \<and> date_value_text v \<and> length v = 15 \<and>
             parse_dt v = Some (Some \<lparr>u_date = ?c, u_hours = 10, u_minutes = 0\<rparr>)"
    by (rule ical_date_time_parse [OF jan_29_valid y]) simp_all
  then have d1: "date_value_text ''20240129T100000''"
    "parse_dt ''20240129T100000'' = Some (Some \<lparr>u_date = ?c, u_hours = 10, u_minutes = 0\<rparr>)"
    unfolding v(1) by auto
  have "\<exists>v. ical_date_time ?c (11, 0, 0) = Some v \<and> date_value_text v \<and> length v = 15 \<and>
             parse_dt v = Some (Some \<lparr>u_date = ?c, u_hours = 11, u_minutes = 0\<rparr>)"
    by (rule ical_date_time_parse [OF jan_29_valid y]) simp_all
  then have d2: "date_value_text ''20240129T110000''"
    "parse_dt ''20240129T110000'' = Some (Some \<lparr>u_date = ?c, u_hours = 11, u_minutes = 0\<rparr>)"
    unfolding v(2) by auto
  have md: "\<not> misread [''DTSTART'', ''DTEND''] (property_line ''DESCRIPTION'' [])" by code_simp
  from parseICalEvent_calendar_text
         [OF assms(9) md assms(10) disjI1 [OF refl] d1(1) d2(1) d1(2) d2(2) assms(11), of "''20240201T093000''" defaultColor]
  obtain p where "parseICalEvent ?text defaultColor = Some p" and "p_uid p = Some (trim r)"
    by blast
  then show ?thesis unfolding decode_encode_def enc option.case by simp
qed

text \<open>
  White space at an end of the UID is lost: the decoder trims it (here a no-break
  space, U+00A0).
\<close>

lemma trailing_space_is_trimmed:
  "e_caldavUid (meeting_with_uid uid_ending_in_space) = Some (''uid-123'' @ [CHR 0xA0]) \<and>
   map_option p_uid (decode_encode (host_at 0) (meeting_with_uid uid_ending_in_space) ''#3b82f6'')
     = Some (Some ''uid-123'')"
proof -
  let ?e = "meeting_with_uid uid_ending_in_space"
  have e: "e_date ?e = Some ''2024-01-29''" "e_startTime ?e = Some ''10:00''"
    "e_endTime ?e = Some ''11:00''" "e_memo ?e = None" "e_title ?e = Some ''Meeting''"
    "e_caldavUid ?e = Some uid_ending_in_space"
    by (simp_all add: meeting_with_uid_def meeting_def)
  have ne: "''Meeting'' \<noteq> []" "uid_ending_in_space \<noteq> []" by (simp_all add: uid_ending_in_space_def)
  have m: "\<not> misread [''DTSTART'', ''DTEND''] (property_line ''SUMMARY'' ''Meeting'')"
    "\<not> misread [''DTSTART'', ''DTEND''] (property_line ''UID'' uid_ending_in_space)"
    by code_simp+
  have f: "first_match ''UID''
             [property_line ''SUMMARY'' ''Meeting'', property_line ''DESCRIPTION'' [],
              property_line ''UID'' uid_ending_in_space] = Some uid_ending_in_space"
    by code_simp
  have t: "trim uid_ending_in_space = ''uid-123''" by code_simp
  from meeting_uid [OF e(1-5) ne(1) e(6) ne(2) m f, of 0 "''#3b82f6''"]
  have r: "map_option p_uid (decode_encode (host_at 0) ?e ''#3b82f6'') = Some (Some ''uid-123'')"
    by (simp only: t)
  have c: "e_caldavUid ?e = Some (''uid-123'' @ [CHR 0xA0])"
    using e(6) by (simp add: uid_ending_in_space_def)
  show ?thesis by (intro conjI c r)
qed

text \<open>A character that the encoder escapes comes back escaped: the decoder does not undo it.\<close>

lemma escaped_uid_is_not_restored:
  "map_option p_uid (decode_encode (host_at 0) (meeting_with_uid ''uid;123'') ''#3b82f6'')
     = Some (Some (''uid'' @ [CHR 0x5C] @ '';123''))"
proof -
  let ?e = "meeting_with_uid ''uid;123''"
  have e: "e_date ?e = Some ''2024-01-29''" "e_startTime ?e = Some ''10:00''"
    "e_endTime ?e = Some ''11:00''" "e_memo ?e = None" "e_title ?e = Some ''Meeting''"
    "e_caldavUid ?e = Some ''uid;123''"
    by (simp_all add: meeting_with_uid_def meeting_def)
  have ne: "''Meeting'' \<noteq> []" "''uid;123'' \<noteq> []" by simp_all
  have m: "\<not> misread [''DTSTART'', ''DTEND''] (property_line ''SUMMARY'' ''Meeting'')"
    "\<not> misread [''DTSTART'', ''DTEND''] (property_line ''UID'' ''uid;123'')"
    by code_simp+
  have f: "first_match ''UID''
             [property_line ''SUMMARY'' ''Meeting'', property_line ''DESCRIPTION'' [],
              property_line ''UID'' ''uid;123''] = Some (''uid'' @ [CHR 0x5C] @ '';123'')"
    by code_simp
  have t: "trim (''uid'' @ [CHR 0x5C] @ '';123'') = ''uid'' @ [CHR 0x5C] @ '';123''" by code_simp
  from meeting_uid [OF e(1-5) ne(1) e(6) ne(2) m f, of 0 "''#3b82f6''"]
  show ?thesis by (simp only: t)
qed

text \<open>
  A UID of 72 characters makes a line of 76, which the encoder folds after 75: the
  decoder reads the first 71 characters of the UID.
\<close>

lemma long_uid_is_cut:
  "map_option p_uid (decode_encode (host_at 0) (meeting_with_uid uid_of_72) ''#3b82f6'')
     = Some (Some (replicate 71 (CHR ''u'')))"
proof -
  let ?e = "meeting_with_uid uid_of_72"
  have e: "e_date ?e = Some ''2024-01-29''" "e_startTime ?e = Some ''10:00''"
    "e_endTime ?e = Some ''11:00''" "e_memo ?e = None" "e_title ?e = Some ''Meeting''"
    "e_caldavUid ?e = Some uid_of_72"
    by (simp_all add: meeting_with_uid_def meeting_def)
  have ne: "''Meeting'' \<noteq> []" "uid_of_72 \<noteq> []" by (simp_all add: uid_of_72_def)
  have m: "\<not> misread [''DTSTART'', ''DTEND''] (property_line ''SUMMARY'' ''Meeting'')"
    "\<not> misread [''DTSTART'', ''DTEND''] (property_line ''UID'' uid_of_72)"
    by code_simp+
  have f: "first_match ''UID''
             [property_line ''SUMMARY'' ''Meeting'', property_line ''DESCRIPTION'' [],
              property_line ''UID'' uid_of_72] = Some (replicate 71 (CHR ''u''))"
    by code_simp
  have t: "trim (replicate 71 (CHR ''u'')) = replicate 71 (CHR ''u'')" by code_simp
  from meeting_uid [OF e(1-5) ne(1) e(6) ne(2) m f, of 0 "''#3b82f6''"]
  show ?thesis by (simp only: t)
qed

text \<open>
  A title that reads like a UID property is taken for the UID, since the line of the
  title comes first.
\<close>

lemma title_is_read_as_uid:
  "e_caldavUid (meeting_titled ''UID:42'') = Some ''uid-123'' \<and>
   map_option p_uid (decode_encode (host_at 0) (meeting_titled ''UID:42'') ''#3b82f6'')
     = Some (Some ''42'')"
proof -
  let ?e = "meeting_titled ''UID:42''"
  have e: "e_date ?e = Some ''2024-01-29''" "e_startTime ?e = Some ''10:00''"
    "e_endTime ?e = Some ''11:00''" "e_memo ?e = None" "e_title ?e = Some ''UID:42''"
    "e_caldavUid ?e = Some ''uid-123''"
    by (simp_all add: meeting_titled_def meeting_def)
  have ne: "''UID:42'' \<noteq> []" "''uid-123'' \<noteq> []" by simp_all
  have m: "\<not> misread [''DTSTART'', ''DTEND''] (property_line ''SUMMARY'' ''UID:42'')"
    "\<not> misread [''DTSTART'', ''DTEND''] (property_line ''UID'' ''uid-123'')"
    by code_simp+
  have f: "first_match ''UID''
             [property_line ''SUMMARY'' ''UID:42'', property_line ''DESCRIPTION'' [],
              property_line ''UID'' ''uid-123''] = Some ''42''"
    by code_simp
  have t: "trim ''42'' = ''42''" by code_simp
  from meeting_uid [OF e(1-5) ne(1) e(6) ne(2) m f, of 0 "''#3b82f6''"]
  have r: "map_option p_uid (decode_encode (host_at 0) ?e ''#3b82f6'') = Some (Some ''42'')"
    by (simp only: t)
  show ?thesis by (intro conjI e(6) r)
qed

text \<open>
  A title that reads like a start date is taken for the start date; here it is no date,
  and the decoder gives no event at all.
\<close>

lemma title_is_read_as_start:
  "decode_encode (host_at 0) (meeting_titled ''DTSTART:soon'') ''#3b82f6'' = None"
proof -
  let ?e = "meeting_titled ''DTSTART:soon''"
  let ?text = "calendar_text ''DTSTART:soon'' [] ''uid-123''
                 [''DTSTART:'' @ ''20240129T100000'', ''DTEND:'' @ ''20240129T110000'']
                 ''20240201T093000''"
  have e: "e_date ?e = Some ''2024-01-29''" "e_startTime ?e = Some ''10:00''"
    "e_endTime ?e = Some ''11:00''"
    by (simp_all add: meeting_titled_def meeting_def)
  have enc: "serializeEventToICS (host_at 0) ?e = Some ?text"
    unfolding meeting_text [OF e, of 0] by (simp add: meeting_titled_def meeting_def)
  have l: "regex_first ''DTSTART'' (property_line ''SUMMARY'' ''DTSTART:soon'') = Some ''soon''"
    by code_simp
  have r: "regex_first ''DTSTART'' ?text = Some ''soon''"
    unfolding calendar_text_search [of "''DTSTART''", OF disjI2 [OF disjI1 [OF refl]]]
      first_match_append
    unfolding first_match.simps l by (simp only: option.case)
  have t: "trim ''soon'' = ''soon''" by code_simp
  have p: "parse_dt ''soon'' = None" by (simp add: parse_dt_def Let_def)
  show ?thesis
    unfolding decode_encode_def enc option.case parseICalEvent_def r
    by (simp add: Let_def t p)
qed

end
